theory Spec2Isabelle
  imports Main "HOL-Library.Word" "HOL-Library.Sublist"
begin

section \<open>The runtime reporter of go-productionize\<close>

text \<open>
  A shallow embedding of \<^verbatim>\<open>reporter/reporter.go\<close> and \<^verbatim>\<open>svcinfo/svcinfo.go\<close>.
  The statsd client is the log of the calls it has received, threaded through every
  exporting function, and so is the heap that holds the backing arrays of the tag slices;
  what the Go runtime returns in a tick (\<^verbatim>\<open>runtime.ReadMemStats\<close>,
  \<^verbatim>\<open>runtime.NumCPU\<close>, \<^verbatim>\<open>time.Since\<close>, ...) is an input of that tick.
\<close>

subsection \<open>Machine types\<close>

type_synonym u32 = "32 word"
type_synonym u64 = "64 word"

text \<open>\<^verbatim>\<open>int64\<close>, read through \<^const>\<open>sint\<close>; \<^verbatim>\<open>time.Duration\<close> is an \<^verbatim>\<open>int64\<close> of nanoseconds.\<close>

type_synonym i64 = "64 word"
type_synonym Duration = "64 word"

text \<open>
  A \<^verbatim>\<open>float64\<close> is either given by its IEEE-754 bits (a literal, or a value measured by
  the runtime), or it is the result of one of Go's conversions \<^verbatim>\<open>float64(x)\<close>, which is
  kept symbolic: no property below depends on how the conversion rounds.
\<close>

datatype float64 =
    Float64_bits u64
  | Float64_of_uint64 u64
  | Float64_of_uint32 u32
  | Float64_of_int64 i64
  | Float64_of_int int

text \<open>The literal \<^verbatim>\<open>1.0\<close>.\<close>

definition f64_one :: float64 where
  "f64_one = Float64_bits 0x3FF0000000000000"

definition Second :: Duration where
  "Second = 1000000000"

definition DefaultPeriod :: Duration where
  "DefaultPeriod = 5 * Second"

subsection \<open>Formatting and parsing\<close>

text \<open>\<^verbatim>\<open>fmt.Sprintf("%d", n)\<close> for an unsigned \<open>n\<close>: its decimal digits.\<close>

fun fmt_d :: "nat \<Rightarrow> string" where
  "fmt_d n =
     (if n < 10 then [''0123456789'' ! n]
      else fmt_d (n div 10) @ [''0123456789'' ! (n mod 10)])"

declare fmt_d.simps [simp del]

text \<open>
  \<^verbatim>\<open>time.ParseDuration(fmt.Sprintf("%dns", x))\<close> for a \<^verbatim>\<open>uint64\<close> \<open>x\<close>. The string is the
  decimal numeral of \<open>x\<close> followed by the unit \<^verbatim>\<open>ns\<close>; the standard library parses it
  to \<open>x\<close> nanoseconds, and reports \<^verbatim>\<open>time: invalid duration\<close> when the number does not
  fit an \<^verbatim>\<open>int64\<close>, that is from \<open>2 ^ 63\<close> on.
\<close>

definition ParseDuration_ns :: "u64 \<Rightarrow> Duration option" where
  "ParseDuration_ns x = (if unat x < 2 ^ 63 then Some x else None)"

subsection \<open>Slices of strings\<close>

text \<open>
  A \<^verbatim>\<open>[]string\<close> is a pointer into a backing array, a length and a capacity. The heap is
  the list of the arrays allocated so far, and an address is a position in it; \<open>array s\<close>
  is the address of the storage that starts at the first element of the slice \<open>s\<close>, of
  which the slice may use \<open>cap s\<close> elements and holds \<open>len s\<close>. Nothing is ever freed.
\<close>

type_synonym heap = "string list list"

record slice =
  array :: nat
  len :: nat
  cap :: nat

text \<open>The nil slice, and the empty slice \<^verbatim>\<open>[]string{}\<close>: no element and no capacity.\<close>

definition empty_slice :: slice where
  "empty_slice = \<lparr>array = 0, len = 0, cap = 0\<rparr>"

text \<open>The elements of a slice, as a call of the statsd client reads them.\<close>

definition elems :: "heap \<Rightarrow> slice \<Rightarrow> string list" where
  "elems h s = (if array s < length h then take (len s) (h ! array s) else [])"

text \<open>
  What makes the triple \<open>s\<close> a slice of the heap \<open>h\<close>: its length is within its capacity,
  and its capacity, when there is any, within an array of the heap.
\<close>

definition wf_slice :: "heap \<Rightarrow> slice \<Rightarrow> bool" where
  "wf_slice h s \<longleftrightarrow>
     len s \<le> cap s \<and> (cap s = 0 \<or> (array s < length h \<and> cap s \<le> length (h ! array s)))"

text \<open>Storing the elements \<open>xs\<close> into an array from the position \<open>i\<close> on.\<close>

fun store :: "string list \<Rightarrow> nat \<Rightarrow> string list \<Rightarrow> string list" where
  "store a i [] = a"
| "store a i (x # xs) = store (a[i := x]) (Suc i) xs"

text \<open>
  \<^verbatim>\<open>append(s, xs...)\<close>. When the capacity of \<open>s\<close> suffices, the new elements are stored
  into the backing array of \<open>s\<close>, behind its \<open>len s\<close> elements, and every slice that
  shares the array sees them; the result is \<open>s\<close> with the new length. Otherwise a new
  array is allocated, which receives the elements of \<open>s\<close> and the new ones. Go leaves the
  capacity of the new array to the implementation (at least the new length); it is the new
  length here, and the program never appends to a slice that an \<^verbatim>\<open>append\<close> has grown, except
  in \<^verbatim>\<open>GetDDTags\<close>, whose slice no other slice shares.
\<close>

definition go_append :: "heap \<Rightarrow> slice \<Rightarrow> string list \<Rightarrow> heap \<times> slice" where
  "go_append h s xs =
     (if len s + length xs \<le> cap s
      then (h[array s := store (h ! array s) (len s) xs], s\<lparr>len := len s + length xs\<rparr>)
      else (h @ [elems h s @ xs],
            \<lparr>array = length h, len = len s + length xs, cap = len s + length xs\<rparr>))"

subsection \<open>svcinfo\<close>

text \<open>The package-level variables of \<^verbatim>\<open>svcinfo\<close>, set at link time.\<close>

record svcinfo_vars =
  var_CommitSHA :: string
  var_BuildDate :: string
  var_Version :: string

record ServiceInfo =
  BuildDate :: string
  CommitSHA :: string
  Version :: string

definition GetDDTags :: "svcinfo_vars \<Rightarrow> heap \<Rightarrow> heap \<times> slice" where
  "GetDDTags g h =
     (let infoTags = empty_slice;
          (h, infoTags) = (if var_CommitSHA g \<noteq> ''''
                           then go_append h infoTags [''commit:'' @ var_CommitSHA g]
                           else (h, infoTags));
          (h, infoTags) = (if var_BuildDate g \<noteq> ''''
                           then go_append h infoTags [''build_date:'' @ var_BuildDate g]
                           else (h, infoTags));
          (h, infoTags) = (if var_Version g \<noteq> ''''
                           then go_append h infoTags [''version:'' @ var_Version g]
                           else (h, infoTags))
      in (h, infoTags))"

definition GetInfo :: "svcinfo_vars \<Rightarrow> ServiceInfo" where
  "GetInfo g = \<lparr>BuildDate = var_BuildDate g, CommitSHA = var_CommitSHA g, Version = var_Version g\<rparr>"

subsection \<open>The snapshot\<close>

record GoInfo =
  Arch :: string
  OS :: string
  Version :: string

record RuntimeStats =
  MaxProcs :: int
  NumCPU :: int
  NumCgoCall :: i64
  NumGoroutine :: int

text \<open>One entry of \<^verbatim>\<open>runtime.MemStats.BySize\<close>.\<close>

record BySizeEntry =
  Size :: u32
  Mallocs :: u64
  Frees :: u64

text \<open>
  The fields of \<^verbatim>\<open>runtime.MemStats\<close> that the reporter reads. \<^verbatim>\<open>PauseNs\<close> is the
  array \<^verbatim>\<open>[256]uint64\<close>, read only at indices below 256; \<^verbatim>\<open>BySize\<close> is the array
  \<^verbatim>\<open>[61]struct{...}\<close> of the size classes, read only at indices below 61.
\<close>

record MemStats =
  Alloc :: u64
  TotalAlloc :: u64
  Sys :: u64
  Lookups :: u64
  Mallocs :: u64
  Frees :: u64
  HeapAlloc :: u64
  HeapSys :: u64
  HeapIdle :: u64
  HeapInuse :: u64
  HeapReleased :: u64
  HeapObjects :: u64
  StackInuse :: u64
  StackSys :: u64
  MSpanInuse :: u64
  MSpanSys :: u64
  MCacheInuse :: u64
  MCacheSys :: u64
  BuckHashSys :: u64
  GCSys :: u64
  OtherSys :: u64
  NextGC :: u64
  LastGC :: u64
  PauseTotalNs :: u64
  PauseNs :: "nat \<Rightarrow> u64"
  NumGC :: u32
  NumForcedGC :: u32
  GCCPUFraction :: float64
  BySize :: "nat \<Rightarrow> BySizeEntry"

text \<open>The entries of \<^verbatim>\<open>BySize\<close> in the order of \<^verbatim>\<open>range\<close>.\<close>

definition BySize_entries :: "MemStats \<Rightarrow> BySizeEntry list" where
  "BySize_entries m = map (BySize m) [0 ..< 61]"

record Stats =
  GoInfo :: GoInfo
  Mem :: MemStats
  Runtime :: RuntimeStats
  ServiceInfo :: ServiceInfo

text \<open>The zero values \<^verbatim>\<open>runtime.MemStats{}\<close>, \<^verbatim>\<open>RuntimeStats{}\<close> and \<^verbatim>\<open>Stats{}\<close>.\<close>

definition MemStats_zero :: MemStats where
  "MemStats_zero =
     \<lparr>Alloc = 0, TotalAlloc = 0, Sys = 0, Lookups = 0, Mallocs = 0, Frees = 0,
      HeapAlloc = 0, HeapSys = 0, HeapIdle = 0, HeapInuse = 0, HeapReleased = 0,
      HeapObjects = 0, StackInuse = 0, StackSys = 0, MSpanInuse = 0, MSpanSys = 0,
      MCacheInuse = 0, MCacheSys = 0, BuckHashSys = 0, GCSys = 0, OtherSys = 0,
      NextGC = 0, LastGC = 0, PauseTotalNs = 0, PauseNs = (\<lambda>_. 0), NumGC = 0,
      NumForcedGC = 0, GCCPUFraction = Float64_bits 0,
      BySize = (\<lambda>_. \<lparr>Size = 0, Mallocs = 0, Frees = 0\<rparr>)\<rparr>"

definition RuntimeStats_zero :: RuntimeStats where
  "RuntimeStats_zero = \<lparr>MaxProcs = 0, NumCPU = 0, NumCgoCall = 0, NumGoroutine = 0\<rparr>"

definition Stats_zero :: Stats where
  "Stats_zero =
     \<lparr>GoInfo = \<lparr>Arch = '''', OS = '''', Version = ''''\<rparr>,
      Mem = MemStats_zero,
      Runtime = RuntimeStats_zero,
      ServiceInfo = \<lparr>BuildDate = '''', CommitSHA = '''', Version = ''''\<rparr>\<rparr>"

subsection \<open>The statsd client\<close>

text \<open>A call of \<^verbatim>\<open>Gauge\<close>, \<^verbatim>\<open>Count\<close> or \<^verbatim>\<open>Timing\<close>: name, value, tags, rate.\<close>

datatype call =
    Gauge string float64 "string list" float64
  | Count string i64 "string list" float64
  | Timing string Duration "string list" float64

type_synonym statsd = "call list"

fun call_name :: "call \<Rightarrow> string" where
  "call_name (Gauge n _ _ _) = n"
| "call_name (Count n _ _ _) = n"
| "call_name (Timing n _ _ _) = n"


fun is_Gauge :: "call \<Rightarrow> bool" where
  "is_Gauge (Gauge _ _ _ _) = True"
| "is_Gauge _ = False"

subsection \<open>The Reporter\<close>

text \<open>
  The fields of \<^verbatim>\<open>Reporter\<close> that hold data. The context and its cancel function are the
  flag \<open>cancelled\<close> of the worker below, the client \<^verbatim>\<open>dd\<close> is the log \<open>sent\<close> of its calls.
  The three tag fields are slices of the heap; a call of the client receives the elements
  its slice has at the call.
\<close>

record Reporter =
  period :: Duration
  stats :: Stats
  defaultTags :: slice
  infoTags :: slice
  runtimeTags :: slice

definition Period :: "Duration \<Rightarrow> Reporter \<Rightarrow> Reporter" where
  "Period t r = r\<lparr>period := t\<rparr>"

text \<open>The option stores the slice it is given: the reporter shares the array of its caller.\<close>

definition DefaultTags :: "slice \<Rightarrow> Reporter \<Rightarrow> Reporter" where
  "DefaultTags tags r = r\<lparr>defaultTags := tags\<rparr>"

text \<open>
  \<^verbatim>\<open>buildTags\<close>: \<^verbatim>\<open>r.runtimeTags = r.defaultTags\<close> copies the slice, not its elements, and
  the \<^verbatim>\<open>append\<close> that follows stores the three runtime tags into the array of
  \<^verbatim>\<open>r.defaultTags\<close> when that slice has the capacity for them.
\<close>

definition buildTags :: "svcinfo_vars \<Rightarrow> heap \<Rightarrow> Reporter \<Rightarrow> heap \<times> Reporter" where
  "buildTags g h r =
     (let (h, tags) = GetDDTags g h;
          r = r\<lparr>infoTags := tags\<rparr>;
          r = r\<lparr>runtimeTags := defaultTags r\<rparr>;
          (h, tags) = go_append h (runtimeTags r)
            [''version:'' @ GoInfo.Version (GoInfo (stats r)),
             ''arch:'' @ Arch (GoInfo (stats r)),
             ''os:'' @ OS (GoInfo (stats r))]
      in (h, r\<lparr>runtimeTags := tags\<rparr>))"


subsection \<open>Sampling\<close>

text \<open>What the Go runtime and the clock return during one tick.\<close>

record sample =
  ReadMemStats :: MemStats
  runtime_NumCPU :: int
  runtime_NumCgoCall :: i64
  runtime_NumGoroutine :: int
  runtime_GOMAXPROCS :: int
  time_Since_start :: Duration

text \<open>
  \<^verbatim>\<open>fillStats\<close>, between \<^verbatim>\<open>r.Lock()\<close> and \<^verbatim>\<open>r.Unlock()\<close>: \<^verbatim>\<open>ReadMemStats\<close> overwrites
  \<^verbatim>\<open>r.stats.Mem\<close>, then \<^verbatim>\<open>r.stats.Runtime\<close> is assigned.
\<close>

definition fillStats :: "sample \<Rightarrow> Reporter \<Rightarrow> Reporter" where
  "fillStats smp r =
     (let r = r\<lparr>stats := (stats r)\<lparr>Mem := ReadMemStats smp\<rparr>\<rparr>
      in r\<lparr>stats := (stats r)\<lparr>Runtime :=
            \<lparr>MaxProcs = runtime_GOMAXPROCS smp,
             NumCPU = runtime_NumCPU smp,
             NumCgoCall = runtime_NumCgoCall smp,
             NumGoroutine = runtime_NumGoroutine smp\<rparr>\<rparr>\<rparr>)"

subsection \<open>Exporting\<close>

definition exportRuntimeStats :: "Reporter \<Rightarrow> heap \<Rightarrow> statsd \<Rightarrow> statsd" where
  "exportRuntimeStats r h dd = dd @
     [Gauge ''go.num_cpu'' (Float64_of_int (NumCPU (Runtime (stats r)))) (elems h (defaultTags r)) f64_one,
      Gauge ''go.num_cgo_calls'' (Float64_of_int64 (NumCgoCall (Runtime (stats r)))) (elems h (defaultTags r)) f64_one,
      Gauge ''go.goroutines'' (Float64_of_int (NumGoroutine (Runtime (stats r)))) (elems h (defaultTags r)) f64_one,
      Gauge ''go.max_procs'' (Float64_of_int (MaxProcs (Runtime (stats r)))) (elems h (defaultTags r)) f64_one]"

definition exportRuntimeInfo :: "Reporter \<Rightarrow> heap \<Rightarrow> statsd \<Rightarrow> statsd" where
  "exportRuntimeInfo r h dd = dd @ [Gauge ''go.runtime'' f64_one (elems h (runtimeTags r)) f64_one]"

definition exportServiceInfo :: "Reporter \<Rightarrow> heap \<Rightarrow> statsd \<Rightarrow> statsd" where
  "exportServiceInfo r h dd =
     (if len (infoTags r) > 0 then dd @ [Gauge ''info'' f64_one (elems h (infoTags r)) f64_one]
      else dd)"

text \<open>The first block of \<^verbatim>\<open>exportMemStats\<close>: 24 gauges, one per field.\<close>

definition exportMemStats_fields :: "Reporter \<Rightarrow> heap \<Rightarrow> statsd \<Rightarrow> statsd" where
  "exportMemStats_fields r h dd =
     (let m = Mem (stats r) in dd @
       [
        Gauge ''go.mem.total_alloc'' (Float64_of_uint64 (TotalAlloc m)) (elems h (defaultTags r)) f64_one,
        Gauge ''go.mem.alloc'' (Float64_of_uint64 (Alloc m)) (elems h (defaultTags r)) f64_one,
        Gauge ''go.mem.sys'' (Float64_of_uint64 (Sys m)) (elems h (defaultTags r)) f64_one,
        Gauge ''go.mem.lookups'' (Float64_of_uint64 (Lookups m)) (elems h (defaultTags r)) f64_one,
        Gauge ''go.mem.mallocs'' (Float64_of_uint64 (MemStats.Mallocs m)) (elems h (defaultTags r)) f64_one,
        Gauge ''go.mem.frees'' (Float64_of_uint64 (MemStats.Frees m)) (elems h (defaultTags r)) f64_one,
        Gauge ''go.mem.heap_alloc'' (Float64_of_uint64 (HeapAlloc m)) (elems h (defaultTags r)) f64_one,
        Gauge ''go.mem.heap_sys'' (Float64_of_uint64 (HeapSys m)) (elems h (defaultTags r)) f64_one,
        Gauge ''go.mem.heap_idle'' (Float64_of_uint64 (HeapIdle m)) (elems h (defaultTags r)) f64_one,
        Gauge ''go.mem.heap_inuse'' (Float64_of_uint64 (HeapInuse m)) (elems h (defaultTags r)) f64_one,
        Gauge ''go.mem.heap_released'' (Float64_of_uint64 (HeapReleased m)) (elems h (defaultTags r)) f64_one,
        Gauge ''go.mem.heap_objects'' (Float64_of_uint64 (HeapObjects m)) (elems h (defaultTags r)) f64_one,
        Gauge ''go.mem.stack_inuse'' (Float64_of_uint64 (StackInuse m)) (elems h (defaultTags r)) f64_one,
        Gauge ''go.mem.stack_sys'' (Float64_of_uint64 (StackSys m)) (elems h (defaultTags r)) f64_one,
        Gauge ''go.mem.mspan_inuse'' (Float64_of_uint64 (MSpanInuse m)) (elems h (defaultTags r)) f64_one,
        Gauge ''go.mem.mspan_sys'' (Float64_of_uint64 (MSpanSys m)) (elems h (defaultTags r)) f64_one,
        Gauge ''go.mem.mcache_inuse'' (Float64_of_uint64 (MCacheInuse m)) (elems h (defaultTags r)) f64_one,
        Gauge ''go.mem.mcache_sys'' (Float64_of_uint64 (MCacheSys m)) (elems h (defaultTags r)) f64_one,
        Gauge ''go.mem.buck_hash_sys'' (Float64_of_uint64 (BuckHashSys m)) (elems h (defaultTags r)) f64_one,
        Gauge ''go.mem.gc_sys'' (Float64_of_uint64 (GCSys m)) (elems h (defaultTags r)) f64_one,
        Gauge ''go.mem.other_sys'' (Float64_of_uint64 (OtherSys m)) (elems h (defaultTags r)) f64_one,
        Gauge ''go.mem.next_gc'' (Float64_of_uint64 (NextGC m)) (elems h (defaultTags r)) f64_one,
        Gauge ''go.mem.last_gc'' (Float64_of_uint64 (LastGC m)) (elems h (defaultTags r)) f64_one,
        Gauge ''go.mem.pause_total_ns'' (Float64_of_uint64 (PauseTotalNs m)) (elems h (defaultTags r)) f64_one])"

text \<open>
  The loop over the pause ring,
  \<^verbatim>\<open>for i := lastGCNum; i <= r.stats.Mem.NumGC; i++\<close>, with \<open>i\<close> a \<^verbatim>\<open>uint32\<close>: the increment
  wraps, so the loop does not end when \<^verbatim>\<open>NumGC\<close> is \<open>2 ^ 32 - 1\<close>. Not returning is the
  value \<open>None\<close>.
\<close>

partial_function (option) pauseLoop :: "Reporter \<Rightarrow> heap \<Rightarrow> u32 \<Rightarrow> statsd \<Rightarrow> statsd option" where
  "pauseLoop r h i dd =
     (if i \<le> NumGC (Mem (stats r)) then
        (case ParseDuration_ns (PauseNs (Mem (stats r)) (unat i mod 256)) of
           None \<Rightarrow> pauseLoop r h (i + 1) dd
         | Some t \<Rightarrow>
             pauseLoop r h (i + 1) (dd @ [Timing ''go.mem.pause_ns'' t (elems h (defaultTags r)) f64_one]))
      else Some dd)"

text \<open>The gauges after the pause loop; \<^verbatim>\<open>go.mem.num_forced_gc\<close> is sent three times.\<close>

definition exportMemStats_gc :: "Reporter \<Rightarrow> heap \<Rightarrow> statsd \<Rightarrow> statsd" where
  "exportMemStats_gc r h dd =
     (let m = Mem (stats r) in dd @
       [Gauge ''go.mem.num_gc'' (Float64_of_uint32 (NumGC m)) (elems h (defaultTags r)) f64_one,
        Gauge ''go.mem.num_forced_gc'' (Float64_of_uint32 (NumForcedGC m)) (elems h (defaultTags r)) f64_one,
        Gauge ''go.mem.gc_cpu_fraction'' (GCCPUFraction m) (elems h (defaultTags r)) f64_one,
        Gauge ''go.mem.num_forced_gc'' (Float64_of_uint32 (NumForcedGC m)) (elems h (defaultTags r)) f64_one,
        Gauge ''go.mem.num_forced_gc'' (Float64_of_uint32 (NumForcedGC m)) (elems h (defaultTags r)) f64_one])"

text \<open>
  The loop \<^verbatim>\<open>for _, b := range r.stats.Mem.BySize\<close>. Each iteration appends its
  \<^verbatim>\<open>size:<n>\<close> to \<^verbatim>\<open>r.defaultTags\<close> itself: when that slice has spare capacity, every
  iteration stores its tag into the same place of the same array.
\<close>

fun bySizeLoop :: "Reporter \<Rightarrow> BySizeEntry list \<Rightarrow> heap \<Rightarrow> statsd \<Rightarrow> heap \<times> statsd" where
  "bySizeLoop r [] h dd = (h, dd)"
| "bySizeLoop r (b # bs) h dd =
     (let tags = defaultTags r;
          (h, tags) = go_append h tags [''size:'' @ fmt_d (unat (Size b))]
      in bySizeLoop r bs h (dd @
           [Gauge ''go.mem.mallocs_by_size'' (Float64_of_uint64 (BySizeEntry.Mallocs b))
              (elems h tags) f64_one,
            Gauge ''go.mem.frees_by_size'' (Float64_of_uint64 (BySizeEntry.Frees b))
              (elems h tags) f64_one]))"

definition exportMemStats ::
    "Reporter \<Rightarrow> u32 \<Rightarrow> heap \<Rightarrow> statsd \<Rightarrow> (heap \<times> statsd) option" where
  "exportMemStats r lastGCNum h dd =
     (case pauseLoop r h lastGCNum (exportMemStats_fields r h dd) of
        None \<Rightarrow> None
      | Some dd \<Rightarrow>
          Some (bySizeLoop r (BySize_entries (Mem (stats r))) h (exportMemStats_gc r h dd)))"

subsection \<open>The worker\<close>

text \<open>
  The body of the \<^verbatim>\<open>case <-timer.C\<close> branch up to \<^verbatim>\<open>time.Since\<close>: the GC count of the
  previous snapshot is kept, the snapshot is refilled, and the four exporters run, the
  last three on the heap that the size-class loop has left.
\<close>

definition tick ::
    "sample \<Rightarrow> Reporter \<Rightarrow> heap \<Rightarrow> statsd \<Rightarrow> (Reporter \<times> heap \<times> statsd) option" where
  "tick smp r h dd =
     (let lastGCNum = NumGC (Mem (stats r));
          r = fillStats smp r
      in case exportMemStats r lastGCNum h dd of
           None \<Rightarrow> None
         | Some (h, dd) \<Rightarrow>
             Some (r, h, exportServiceInfo r h (exportRuntimeInfo r h (exportRuntimeStats r h dd))))"

text \<open>
  A \<^verbatim>\<open>time.Timer\<close> delivers one value on its channel. \<open>Armed d\<close>: created by
  \<^verbatim>\<open>time.NewTimer(d)\<close>, its value not yet received. \<open>Drained\<close>: its value has been
  received, and nothing will arrive on its channel again.
\<close>

datatype timer = Armed Duration | Drained

text \<open>
  After the pass, \<^verbatim>\<open>if r.period-processTime > 0 { timer = time.NewTimer(...) }\<close>: the
  subtraction and the comparison are those of \<^verbatim>\<open>int64\<close>. Otherwise the variable keeps
  the timer whose value the \<^verbatim>\<open>select\<close> has just received.
\<close>

definition next_timer :: "Duration \<Rightarrow> Duration \<Rightarrow> timer" where
  "next_timer p processTime =
     (if 0 <s p - processTime then Armed (p - processTime) else Drained)"

text \<open>
  The other variant of \<^verbatim>\<open>watch\<close> in the source has no timer:
  \<^verbatim>\<open>if r.period-processTime > 0 { time.Sleep(r.period - processTime) }\<close>, and the loop
  goes on in either case. The result is how long it sleeps before the next cycle.
\<close>

definition watch_sleep :: "Duration \<Rightarrow> Duration \<Rightarrow> Duration" where
  "watch_sleep p processTime = (if 0 <s p - processTime then p - processTime else 0)"

record worker =
  rep :: Reporter
  heap :: heap
  sent :: statsd
  timer :: timer
  cancelled :: bool
  returned :: bool

text \<open>
  What can happen to the worker: \<open>Cancel\<close> is a call of \<^verbatim>\<open>Cancel()\<close> from another
  goroutine; \<open>TimerC smp\<close> is the \<^verbatim>\<open>select\<close> receiving from \<^verbatim>\<open>timer.C\<close> and running
  the pass with what the runtime returns in it; \<open>CtxDone\<close> is the \<^verbatim>\<open>select\<close> receiving
  from \<^verbatim>\<open>r.ctx.Done()\<close>. Time is not part of the state: when an armed timer fires, and so
  whether a \<^verbatim>\<open>select\<close> receives from it before the context is done, is decided outside
  the program, and which of two ready channels a \<^verbatim>\<open>select\<close> takes is the choice of the Go
  runtime. Both are part of the input, as the order of the events.

  A step is \<open>NotEnabled\<close> when the event cannot happen in that state: the \<^verbatim>\<open>select\<close>
  cannot receive from a drained timer, nor from the context before \<^verbatim>\<open>Cancel()\<close>, and there
  is no \<^verbatim>\<open>select\<close> once the worker has returned. It \<open>Diverges\<close> when the pass does not
  return.
\<close>

datatype event = Cancel | TimerC sample | CtxDone

datatype stuck = NotEnabled | Diverges

definition watch_step :: "event \<Rightarrow> worker \<Rightarrow> stuck + worker" where
  "watch_step e w =
     (case e of
        Cancel \<Rightarrow> Inr (w\<lparr>cancelled := True\<rparr>)
      | TimerC smp \<Rightarrow>
          (if returned w \<or> timer w = Drained then Inl NotEnabled
           else case tick smp (rep w) (heap w) (sent w) of
                  None \<Rightarrow> Inl Diverges
                | Some (r, h, d) \<Rightarrow>
                    Inr (w\<lparr>rep := r, heap := h, sent := d,
                           timer := next_timer (period r) (time_Since_start smp)\<rparr>))
      | CtxDone \<Rightarrow>
          (if returned w \<or> \<not> cancelled w then Inl NotEnabled
           else Inr (w\<lparr>returned := True\<rparr>)))"

fun run :: "event list \<Rightarrow> worker \<Rightarrow> stuck + worker" where
  "run [] w = Inr w"
| "run (e # es) w = (case watch_step e w of Inl x \<Rightarrow> Inl x | Inr w' \<Rightarrow> run es w')"

subsection \<open>Construction\<close>

text \<open>What \<^verbatim>\<open>New\<close> reads from its environment.\<close>

record goenv =
  svcinfo :: svcinfo_vars
  runtime_Version :: string
  GOARCH :: string
  GOOS :: string

text \<open>
  \<^verbatim>\<open>New\<close>, called on the heap \<open>h0\<close>, which holds the arrays of the slices its options
  carry: the options are applied in order, then the static fields are stored, the tags
  built and the startup counter sent, with the tags \<^verbatim>\<open>[]string{}\<close>; \<^verbatim>\<open>watch\<close> starts the
  worker with \<^verbatim>\<open>time.NewTimer(0)\<close>. The result is the reporter with its worker.
\<close>

definition New :: "heap \<Rightarrow> goenv \<Rightarrow> statsd \<Rightarrow> (Reporter \<Rightarrow> Reporter) list \<Rightarrow> worker" where
  "New h0 env dd0 options =
     (let r = \<lparr>period = DefaultPeriod, stats = Stats_zero, defaultTags = empty_slice,
               infoTags = empty_slice, runtimeTags = empty_slice\<rparr>;
          r = foldl (\<lambda>r opt. opt r) r options;
          r = r\<lparr>stats := (stats r)\<lparr>ServiceInfo := GetInfo (svcinfo env)\<rparr>\<rparr>;
          r = r\<lparr>stats := (stats r)\<lparr>GoInfo :=
                \<lparr>Arch = GOARCH env, OS = GOOS env, Version = runtime_Version env\<rparr>\<rparr>\<rparr>;
          r = r\<lparr>stats := (stats r)\<lparr>Mem := MemStats_zero\<rparr>\<rparr>;
          r = r\<lparr>stats := (stats r)\<lparr>Runtime := RuntimeStats_zero\<rparr>\<rparr>;
          (h, r) = buildTags (svcinfo env) h0 r;
          dd1 = dd0 @ [Count ''startup'' 1 [] f64_one]
      in \<lparr>rep = r, heap = h, sent = dd1, timer = Armed 0, cancelled = False, returned = False\<rparr>)"

text \<open>\<^verbatim>\<open>GetStats\<close>: the snapshot, by value.\<close>

definition GetStats :: "Reporter \<Rightarrow> Stats" where
  "GetStats r = stats r"


subsection \<open>What the loops of a pass send\<close>

text \<open>What one iteration of the pause loop sends for the index \<open>k\<close>.\<close>

definition pauseSample :: "Reporter \<Rightarrow> heap \<Rightarrow> nat \<Rightarrow> call list" where
  "pauseSample r h k =
     (case ParseDuration_ns (PauseNs (Mem (stats r)) (k mod 256)) of
        None \<Rightarrow> []
      | Some t \<Rightarrow> [Timing ''go.mem.pause_ns'' t (elems h (defaultTags r)) f64_one])"

text \<open>The two gauges of the size class \<open>b\<close>, with the tags \<open>ts\<close> followed by its size.\<close>

definition bySizeGauges :: "string list \<Rightarrow> BySizeEntry \<Rightarrow> call list" where
  "bySizeGauges ts b =
     [Gauge ''go.mem.mallocs_by_size'' (Float64_of_uint64 (BySizeEntry.Mallocs b))
        (ts @ [''size:'' @ fmt_d (unat (Size b))]) f64_one,
      Gauge ''go.mem.frees_by_size'' (Float64_of_uint64 (BySizeEntry.Frees b))
        (ts @ [''size:'' @ fmt_d (unat (Size b))]) f64_one]"

fun is_pause_ns :: "call \<Rightarrow> bool" where
  "is_pause_ns (Timing n _ _ _) = (n = ''go.mem.pause_ns'')"
| "is_pause_ns _ = False"

text \<open>The elements of the slice that \<^verbatim>\<open>GetDDTags\<close> returns.\<close>

definition DDTags :: "svcinfo_vars \<Rightarrow> string list" where
  "DDTags g =
     (if var_CommitSHA g \<noteq> '''' then [''commit:'' @ var_CommitSHA g] else []) @
     (if var_BuildDate g \<noteq> '''' then [''build_date:'' @ var_BuildDate g] else []) @
     (if var_Version g \<noteq> '''' then [''version:'' @ var_Version g] else [])"

subsection \<open>Concrete inputs\<close>

definition example_env :: goenv where
  "example_env =
     \<lparr>svcinfo = \<lparr>var_CommitSHA = ''abc123'', var_BuildDate = [], var_Version = ''1.2''\<rparr>,
      runtime_Version = ''go1.11'', GOARCH = ''amd64'', GOOS = ''linux''\<rparr>"

text \<open>
  Size classes of 0, 8, 16, ... bytes, the one of 16 bytes with 100 mallocs and 40 frees,
  the one of 32 bytes with 5 and 5.
\<close>

definition example_classes :: "nat \<Rightarrow> BySizeEntry" where
  "example_classes i =
     \<lparr>Size = 8 * of_nat i,
      Mallocs = (if i = 2 then 100 else if i = 4 then 5 else 0),
      Frees = (if i = 2 then 40 else if i = 4 then 5 else 0)\<rparr>"

text \<open>
  A sample with the GC count \<open>n\<close>, the pause ring \<open>pauses\<close>, the size classes
  \<open>classes\<close> and a pass that took \<open>elapsed\<close> nanoseconds.
\<close>

definition example_sample ::
    "u32 \<Rightarrow> (nat \<Rightarrow> u64) \<Rightarrow> (nat \<Rightarrow> BySizeEntry) \<Rightarrow> Duration \<Rightarrow> sample" where
  "example_sample n pauses classes elapsed =
     \<lparr>ReadMemStats = MemStats_zero\<lparr>NumGC := n, PauseNs := pauses, BySize := classes\<rparr>,
      runtime_NumCPU = 4, runtime_NumCgoCall = 0, runtime_NumGoroutine = 7,
      runtime_GOMAXPROCS = 4, time_Since_start = elapsed\<rparr>"

text \<open>
  Two callers of \<^verbatim>\<open>DefaultTags\<close>. The first passes \<^verbatim>\<open>[]string{"env:prod"}\<close>, a slice
  without spare capacity. The second has made its slice with
  \<^verbatim>\<open>make([]string, 0, 4)\<close> and appended \<^verbatim>\<open>"env:prod"\<close> to it: three places of its
  array are free.
\<close>

definition exact_heap :: heap where
  "exact_heap = [[''env:prod'']]"

definition exact_tags :: slice where
  "exact_tags = \<lparr>array = 0, len = 1, cap = 1\<rparr>"

definition roomy_heap :: heap where
  "roomy_heap = [[''env:prod'', '''', '''', '''']]"

definition roomy_tags :: slice where
  "roomy_tags = \<lparr>array = 0, len = 1, cap = 4\<rparr>"

subsection \<open>Reading the log of calls\<close>


definition gauges_named :: "string \<Rightarrow> call list \<Rightarrow> call list" where
  "gauges_named n = filter (\<lambda>c. is_Gauge c \<and> call_name c = n)"

text \<open>
  The names under \<^verbatim>\<open>go.mem.\<close> that \<^verbatim>\<open>exportMemStats\<close> sends as a gauge outside its
  loops, \<^verbatim>\<open>go.mem.num_forced_gc\<close> apart.
\<close>

definition mem_field_names :: "string list" where
  "mem_field_names =
     [''go.mem.total_alloc'', ''go.mem.alloc'', ''go.mem.sys'', ''go.mem.lookups'',
      ''go.mem.mallocs'', ''go.mem.frees'', ''go.mem.heap_alloc'', ''go.mem.heap_sys'',
      ''go.mem.heap_idle'', ''go.mem.heap_inuse'', ''go.mem.heap_released'',
      ''go.mem.heap_objects'', ''go.mem.stack_inuse'', ''go.mem.stack_sys'',
      ''go.mem.mspan_inuse'', ''go.mem.mspan_sys'', ''go.mem.mcache_inuse'',
      ''go.mem.mcache_sys'', ''go.mem.buck_hash_sys'', ''go.mem.gc_sys'', ''go.mem.other_sys'',
      ''go.mem.next_gc'', ''go.mem.last_gc'', ''go.mem.pause_total_ns'', ''go.mem.num_gc'',
      ''go.mem.gc_cpu_fraction'']"

fun is_TimerC :: "event \<Rightarrow> bool" where
  "is_TimerC (TimerC _) = True"
| "is_TimerC _ = False"

text \<open>The heap that a pass which returns leaves, and what it sends, in order.\<close>

definition tick_heap :: "sample \<Rightarrow> Reporter \<Rightarrow> heap \<Rightarrow> heap" where
  "tick_heap smp r h =
     fst (bySizeLoop (fillStats smp r) (BySize_entries (ReadMemStats smp)) h [])"

definition tick_calls :: "sample \<Rightarrow> Reporter \<Rightarrow> heap \<Rightarrow> call list" where
  "tick_calls smp r h =
     exportMemStats_fields (fillStats smp r) h [] @
     concat (map (pauseSample (fillStats smp r) h)
       [unat (NumGC (Mem (stats r))) ..< Suc (unat (NumGC (ReadMemStats smp)))]) @
     exportMemStats_gc (fillStats smp r) h [] @
     snd (bySizeLoop (fillStats smp r) (BySize_entries (ReadMemStats smp)) h []) @
     exportRuntimeStats (fillStats smp r) (tick_heap smp r h) [] @
     exportRuntimeInfo (fillStats smp r) (tick_heap smp r h) [] @
     exportServiceInfo (fillStats smp r) (tick_heap smp r h) []"

text \<open>The worker after a pass that returns.\<close>

definition after_tick :: "sample \<Rightarrow> worker \<Rightarrow> worker" where
  "after_tick smp w =
     w\<lparr>rep := fillStats smp (rep w),
       heap := tick_heap smp (rep w) (heap w),
       sent := sent w @ tick_calls smp (rep w) (heap w),
       timer := next_timer (period (rep w)) (time_Since_start smp)\<rparr>"

subsection \<open>The tag slices of a reporter\<close>

text \<open>
  The slice \<open>t\<close> is out of the reach of an \<^verbatim>\<open>append\<close> to the slice \<open>s\<close>: it is empty, or
  it lies in another array than the one such an \<^verbatim>\<open>append\<close> can store into.
\<close>

definition apart :: "heap \<Rightarrow> slice \<Rightarrow> slice \<Rightarrow> bool" where
  "apart h s t \<longleftrightarrow> len t = 0 \<or> (array t < length h \<and> (cap s = 0 \<or> array t \<noteq> array s))"

text \<open>
  What \<^verbatim>\<open>buildTags\<close> sets up and every pass keeps, for the default tags \<open>D\<close>, the tags
  \<open>T\<close> of \<^verbatim>\<open>svcinfo\<close> and the runtime tags \<open>v\<close>, \<open>a\<close>, \<open>os\<close>. When the default tags have
  room for three more elements, \<^verbatim>\<open>r.runtimeTags\<close> is \<^verbatim>\<open>r.defaultTags\<close> with the length
  extended by three, on the same array, and its element behind the default tags is
  whatever was stored there last; otherwise \<^verbatim>\<open>r.runtimeTags\<close> has an array of its own.
\<close>

definition tags_inv ::
    "string list \<Rightarrow> string list \<Rightarrow> string \<Rightarrow> string \<Rightarrow> string \<Rightarrow> heap \<Rightarrow> Reporter \<Rightarrow> bool" where
  "tags_inv D T v a os h r \<longleftrightarrow>
     wf_slice h (defaultTags r) \<and> elems h (defaultTags r) = D \<and>
     apart h (defaultTags r) (infoTags r) \<and> elems h (infoTags r) = T \<and>
     len (infoTags r) = length T \<and>
     (if len (defaultTags r) + 3 \<le> cap (defaultTags r)
      then runtimeTags r = (defaultTags r)\<lparr>len := len (defaultTags r) + 3\<rparr> \<and>
           elems h (runtimeTags r) = D @ [elems h (runtimeTags r) ! length D, a, os]
      else apart h (defaultTags r) (runtimeTags r) \<and>
           elems h (runtimeTags r) = D @ [v, a, os])"


subsection \<open>GetStats against fillStats\<close>

text \<open>
  The Reporter embeds a \<^verbatim>\<open>sync.RWMutex\<close>. The worker runs \<^verbatim>\<open>fillStats\<close>:
  \<^verbatim>\<open>r.Lock()\<close>, \<^verbatim>\<open>runtime.ReadMemStats(&r.stats.Mem)\<close>, the assignment of
  \<^verbatim>\<open>r.stats.Runtime\<close>, \<^verbatim>\<open>r.Unlock()\<close>. Any number of callers run \<^verbatim>\<open>GetStats\<close>:
  \<^verbatim>\<open>r.RLock()\<close>, the copy of \<^verbatim>\<open>r.stats\<close> into the result, the deferred \<^verbatim>\<open>r.RUnlock()\<close>.
  Each of these statements is one step, and the steps of the worker and of the callers
  interleave in any order the mutex allows: \<^verbatim>\<open>Lock\<close> needs that nobody holds the mutex,
  \<^verbatim>\<open>RLock\<close> that the writer does not.
\<close>

text \<open>Where the worker is in \<^verbatim>\<open>fillStats\<close>.\<close>

datatype fill_pc = Fill_idle | Fill_locked | Fill_mem_written | Fill_runtime_written

text \<open>
  The shared state: \<^verbatim>\<open>r.stats\<close>; the position of the worker; the callers that hold the
  read lock and have not copied yet; the callers that hold it with their copy; and the
  values \<^verbatim>\<open>GetStats\<close> has returned, in order.
\<close>

record shared =
  snapshot :: Stats
  fill :: fill_pc
  rlocked :: "nat list"
  copied :: "(nat \<times> Stats) list"
  results :: "Stats list"

datatype action =
    W_Lock
  | W_ReadMemStats MemStats
  | W_SetRuntime RuntimeStats
  | W_Unlock
  | G_RLock nat
  | G_Copy nat
  | G_RUnlock nat

definition conc_step :: "action \<Rightarrow> shared \<Rightarrow> shared option" where
  "conc_step a st =
     (case a of
        W_Lock \<Rightarrow>
          if fill st = Fill_idle \<and> rlocked st = [] \<and> copied st = []
          then Some (st\<lparr>fill := Fill_locked\<rparr>) else None
      | W_ReadMemStats m \<Rightarrow>
          if fill st = Fill_locked
          then Some (st\<lparr>snapshot := (snapshot st)\<lparr>Mem := m\<rparr>, fill := Fill_mem_written\<rparr>)
          else None
      | W_SetRuntime rt \<Rightarrow>
          if fill st = Fill_mem_written
          then Some (st\<lparr>snapshot := (snapshot st)\<lparr>Runtime := rt\<rparr>,
                       fill := Fill_runtime_written\<rparr>)
          else None
      | W_Unlock \<Rightarrow>
          if fill st = Fill_runtime_written then Some (st\<lparr>fill := Fill_idle\<rparr>) else None
      | G_RLock c \<Rightarrow>
          if fill st = Fill_idle \<and> c \<notin> set (rlocked st) \<and> c \<notin> set (map fst (copied st))
          then Some (st\<lparr>rlocked := c # rlocked st\<rparr>) else None
      | G_Copy c \<Rightarrow>
          if c \<in> set (rlocked st)
          then Some (st\<lparr>rlocked := removeAll c (rlocked st),
                       copied := (c, snapshot st) # copied st\<rparr>)
          else None
      | G_RUnlock c \<Rightarrow>
          (case map_of (copied st) c of
             None \<Rightarrow> None
           | Some v \<Rightarrow>
               Some (st\<lparr>copied := filter (\<lambda>p. fst p \<noteq> c) (copied st),
                         results := results st @ [v]\<rparr>)))"

fun conc_run :: "action list \<Rightarrow> shared \<Rightarrow> shared option" where
  "conc_run [] st = Some st"
| "conc_run (a # as) st = (case conc_step a st of None \<Rightarrow> None | Some st' \<Rightarrow> conc_run as st')"

text \<open>The shared state when \<^verbatim>\<open>New\<close> returns the reporter \<open>r\<close>.\<close>

definition conc_init :: "Reporter \<Rightarrow> shared" where
  "conc_init r =
     \<lparr>snapshot = stats r, fill = Fill_idle, rlocked = [], copied = [], results = []\<rparr>"

text \<open>
  What the sampling passes of a schedule write: the memory statistics of its
  \<^verbatim>\<open>ReadMemStats\<close> steps and the runtime counters of its assignments, in order. The pass
  number \<open>n\<close> of the schedule wrote the pair \<open>passes as ! n\<close>.
\<close>

fun mem_writes :: "action list \<Rightarrow> MemStats list" where
  "mem_writes [] = []"
| "mem_writes (W_ReadMemStats m # as) = m # mem_writes as"
| "mem_writes (_ # as) = mem_writes as"

fun runtime_writes :: "action list \<Rightarrow> RuntimeStats list" where
  "runtime_writes [] = []"
| "runtime_writes (W_SetRuntime rt # as) = rt # runtime_writes as"
| "runtime_writes (_ # as) = runtime_writes as"

definition passes :: "action list \<Rightarrow> (MemStats \<times> RuntimeStats) list" where
  "passes as = zip (mem_writes as) (runtime_writes as)"

text \<open>The snapshot of one pass: the static fields of \<open>s\<close> with the pair \<open>p\<close> of that pass.\<close>

definition snapshot_of :: "Stats \<Rightarrow> MemStats \<times> RuntimeStats \<Rightarrow> Stats" where
  "snapshot_of s p = s\<lparr>Mem := fst p, Runtime := snd p\<rparr>"

text \<open>The steps of one \<^verbatim>\<open>fillStats\<close> and of one \<^verbatim>\<open>GetStats\<close> by the caller \<open>c\<close>.\<close>

definition fillStats_steps :: "sample \<Rightarrow> action list" where
  "fillStats_steps smp =
     [W_Lock, W_ReadMemStats (ReadMemStats smp),
      W_SetRuntime \<lparr>MaxProcs = runtime_GOMAXPROCS smp, NumCPU = runtime_NumCPU smp,
                    NumCgoCall = runtime_NumCgoCall smp,
                    NumGoroutine = runtime_NumGoroutine smp\<rparr>,
      W_Unlock]"

definition GetStats_steps :: "nat \<Rightarrow> action list" where
  "GetStats_steps c = [G_RLock c, G_Copy c, G_RUnlock c]"

text \<open>
  What every reachable state satisfies, \<open>as\<close> being the steps so far: while the worker
  holds the lock no caller holds it; the static fields are those of the start; between the
  two writes the memory statistics written last have no runtime counters yet, and outside
  them the snapshot is the one of a pass; and so is every copy and every result.
\<close>

definition conc_inv :: "Stats \<Rightarrow> action list \<Rightarrow> shared \<Rightarrow> bool" where
  "conc_inv s as st \<longleftrightarrow>
     (fill st = Fill_idle \<or> (rlocked st = [] \<and> copied st = [])) \<and>
     GoInfo (snapshot st) = GoInfo s \<and> ServiceInfo (snapshot st) = ServiceInfo s \<and>
     (if fill st = Fill_mem_written
      then \<exists>ms. mem_writes as = ms @ [Mem (snapshot st)] \<and> length ms = length (runtime_writes as)
      else length (mem_writes as) = length (runtime_writes as) \<and>
           snapshot st \<in> snapshot_of s ` set ((Mem s, Runtime s) # passes as)) \<and>
     snd ` set (copied st) \<subseteq> snapshot_of s ` set ((Mem s, Runtime s) # passes as) \<and>
     set (results st) \<subseteq> snapshot_of s ` set ((Mem s, Runtime s) # passes as)"

text \<open>
  A schedule: one pass; two overlapping calls of \<^verbatim>\<open>GetStats\<close>; the start of a second pass,
  up to its first write.
\<close>

definition example_schedule :: "action list" where
  "example_schedule =
     fillStats_steps (example_sample 3 (\<lambda>_. 5) example_classes 1000) @
     [G_RLock 7, G_Copy 7, G_RLock 8, G_RUnlock 7, G_Copy 8, G_RUnlock 8] @
     [W_Lock, W_ReadMemStats (ReadMemStats (example_sample 5 (\<lambda>_. 7) example_classes 1000))]"

section \<open>Properties\<close>

subsection \<open>Slices and append\<close>

lemma store_length [simp]: "length (store a i xs) = length a"
  by (induction xs arbitrary: a i) simp_all

lemma store_take_le: "j \<le> i \<Longrightarrow> take j (store a i xs) = take j a"
  by (induction xs arbitrary: a i) simp_all

lemma store_elems:
  "i + length xs \<le> length a \<Longrightarrow> take (i + length xs) (store a i xs) = take i a @ xs"
proof (induction xs arbitrary: a i)
  case Nil
  then show ?case by simp
next
  case (Cons x xs)
  have "take (Suc i + length xs) (store (a[i := x]) (Suc i) xs) = take (Suc i) (a[i := x]) @ xs"
    using Cons.prems by (intro Cons.IH) simp
  moreover have "take (Suc i) (a[i := x]) = take i a @ [x]"
    using Cons.prems by (simp add: take_Suc_conv_app_nth)
  ultimately show ?case
    by simp
qed

lemma elems_len0: "len t = 0 \<Longrightarrow> elems h t = []"
  by (simp add: elems_def)

lemma wf_slice_length: "wf_slice h s \<Longrightarrow> length (elems h s) = len s"
  by (auto simp: wf_slice_def elems_def)

lemma wf_empty_slice: "wf_slice h empty_slice"
  by (simp add: wf_slice_def empty_slice_def)

lemma elems_empty_slice: "elems h empty_slice = []"
  by (simp add: elems_def empty_slice_def)

text \<open>A heap that has grown, its old arrays unchanged, holds the slices it held.\<close>

lemma wf_slice_grown:
  assumes "wf_slice h s" and "length h \<le> length h'" and "\<forall>i < length h. h' ! i = h ! i"
  shows "wf_slice h' s" and "elems h' s = elems h s"
  using assms by (auto simp: wf_slice_def elems_def)

lemma go_append_length: "length h \<le> length (fst (go_append h s xs))"
  by (simp add: go_append_def)

lemma go_append_len: "len (snd (go_append h s xs)) = len s + length xs"
  by (simp add: go_append_def)

text \<open>An append leaves the slice it appends to as it was, and its result holds the new elements.\<close>

lemma go_append_self:
  assumes "wf_slice h s"
  shows "wf_slice (fst (go_append h s xs)) s"
    and "elems (fst (go_append h s xs)) s = elems h s"
    and "elems (fst (go_append h s xs)) (snd (go_append h s xs)) = elems h s @ xs"
proof -
  show "wf_slice (fst (go_append h s xs)) s"
    using assms by (auto simp: go_append_def wf_slice_def nth_append nth_list_update)
  show "elems (fst (go_append h s xs)) s = elems h s"
    using assms by (auto simp: go_append_def wf_slice_def elems_def nth_append store_take_le)
  show "elems (fst (go_append h s xs)) (snd (go_append h s xs)) = elems h s @ xs"
  proof (cases "len s + length xs \<le> cap s")
    case True
    show ?thesis
    proof (cases "cap s = 0")
      case True
      with \<open>len s + length xs \<le> cap s\<close> show ?thesis
        by (simp add: go_append_def elems_def)
    next
      case False
      with assms have a: "array s < length h" and c: "cap s \<le> length (h ! array s)"
        by (simp_all add: wf_slice_def)
      from True c have "len s + length xs \<le> length (h ! array s)"
        by simp
      from store_elems [OF this] True a show ?thesis
        by (simp add: go_append_def elems_def)
    qed
  next
    case False
    then show ?thesis
      using wf_slice_length [OF assms] by (simp add: go_append_def elems_def)
  qed
qed

text \<open>An append that allocates changes no slice of the heap.\<close>

lemma go_append_alloc:
  assumes "\<not> len s + length xs \<le> cap s" and "array t < length h \<or> len t = 0"
  shows "elems (fst (go_append h s xs)) t = elems h t"
  using assms by (auto simp: go_append_def elems_def nth_append)

text \<open>
  An append of one element in place: a slice on the same array sees the element at the
  position \<open>len s\<close>, a slice on another array sees nothing.
\<close>

lemma go_append_in_place:
  assumes "len s < cap s"
  shows "elems (fst (go_append h s [x])) t =
           (if array t = array s then (elems h t)[len s := x] else elems h t)"
  using assms by (auto simp: go_append_def elems_def take_update_swap)

lemma go_append_other:
  assumes "array t < length h \<or> len t = 0" and "cap s \<le> len s \<or> array t \<noteq> array s"
  shows "elems (fst (go_append h s [x])) t = elems h t"
proof (cases "len s < cap s")
  case True
  with assms(2) show ?thesis
    by (simp add: go_append_in_place)
next
  case False
  then have "\<not> len s + length [x] \<le> cap s"
    by simp
  from go_append_alloc [OF this assms(1)] show ?thesis .
qed

subsection \<open>The tags of svcinfo\<close>

lemma GetDDTags_spec:
  "elems (fst (GetDDTags g h)) (snd (GetDDTags g h)) = DDTags g"
  "len (snd (GetDDTags g h)) = length (DDTags g)"
  "length h \<le> length (fst (GetDDTags g h))"
  "\<forall>i < length h. fst (GetDDTags g h) ! i = h ! i"
  "len (snd (GetDDTags g h)) = 0 \<or>
     (length h \<le> array (snd (GetDDTags g h)) \<and>
      array (snd (GetDDTags g h)) < length (fst (GetDDTags g h)))"
  by (simp_all add: GetDDTags_def go_append_def elems_def empty_slice_def DDTags_def Let_def
        nth_append)

subsection \<open>The loops in closed form\<close>

lemma unat_inc_u32:
  fixes i n :: u32
  assumes "i \<le> n" and "n \<noteq> - 1"
  shows "unat (i + 1) = Suc (unat i)"
proof -
  have "i \<noteq> - 1"
  proof
    assume "i = - 1"
    with assms(1) have "n = - 1"
      by (simp add: word_order.extremum_unique)
    with assms(2) show False by simp
  qed
  then have "1 + i \<noteq> 0"
    using max_word_wrap [of i] by (auto simp: add.commute)
  then have "unat (1 + i) = Suc (unat i)"
    by (rule unatSuc)
  then show ?thesis
    by (simp add: add.commute)
qed

lemma pauseLoop_step:
  assumes "i \<le> NumGC (Mem (stats r))"
  shows "pauseLoop r h i dd = pauseLoop r h (i + 1) (dd @ pauseSample r h (unat i))"
  using assms
  by (simp add: pauseLoop.simps [of r h i dd] pauseSample_def split: option.split)

lemma pauseLoop_exit:
  assumes "\<not> i \<le> NumGC (Mem (stats r))"
  shows "pauseLoop r h i dd = Some dd"
  using assms by (simp add: pauseLoop.simps [of r h i dd])

lemma pauseLoop_eq:
  assumes "NumGC (Mem (stats r)) \<noteq> - 1"
  shows "pauseLoop r h i dd =
           Some (dd @ concat (map (pauseSample r h) [unat i ..< Suc (unat (NumGC (Mem (stats r))))]))"
proof (induction "Suc (unat (NumGC (Mem (stats r)))) - unat i" arbitrary: i dd)
  case 0
  then have nle: "\<not> i \<le> NumGC (Mem (stats r))"
    by (simp add: word_le_nat_alt)
  have "[unat i ..< Suc (unat (NumGC (Mem (stats r))))] = []"
    using 0 by simp
  then show ?case
    by (simp only: pauseLoop_exit [OF nle] list.map concat.simps append_Nil2)
next
  case (Suc k)
  then have le: "i \<le> NumGC (Mem (stats r))"
    by (simp add: word_le_nat_alt)
  have inc: "unat (i + 1) = Suc (unat i)"
    using le assms by (rule unat_inc_u32)
  have k: "k = Suc (unat (NumGC (Mem (stats r)))) - unat (i + 1)"
    using Suc.hyps(2) inc by simp
  have range: "[unat i ..< Suc (unat (NumGC (Mem (stats r))))] =
                 unat i # [unat (i + 1) ..< Suc (unat (NumGC (Mem (stats r))))]"
    unfolding inc using Suc.hyps(2) by (intro upt_conv_Cons) simp
  show ?case
    by (simp only: pauseLoop_step [OF le] Suc.hyps(1) [OF k] range list.map concat.simps
          append_assoc)
qed

text \<open>The size-class loop adds to the log it is given, and its heap does not depend on it.\<close>

lemma bySizeLoop_append:
  "bySizeLoop r bs h dd = (fst (bySizeLoop r bs h []), dd @ snd (bySizeLoop r bs h []))"
proof (induction bs arbitrary: h dd)
  case Nil
  then show ?case by simp
next
  case (Cons b bs)
  show ?case
    by (simp add: Let_def split_beta Cons.IH [of _ "dd @ _"] Cons.IH [of _ "[_, _]"])
qed

lemma bySizeLoop_Cons:
  "fst (bySizeLoop r (b # bs) h []) =
     fst (bySizeLoop r bs (fst (go_append h (defaultTags r) [''size:'' @ fmt_d (unat (Size b))])) [])"
  "snd (bySizeLoop r (b # bs) h []) =
     [Gauge ''go.mem.mallocs_by_size'' (Float64_of_uint64 (BySizeEntry.Mallocs b))
        (elems (fst (go_append h (defaultTags r) [''size:'' @ fmt_d (unat (Size b))]))
               (snd (go_append h (defaultTags r) [''size:'' @ fmt_d (unat (Size b))]))) f64_one,
      Gauge ''go.mem.frees_by_size'' (Float64_of_uint64 (BySizeEntry.Frees b))
        (elems (fst (go_append h (defaultTags r) [''size:'' @ fmt_d (unat (Size b))]))
               (snd (go_append h (defaultTags r) [''size:'' @ fmt_d (unat (Size b))]))) f64_one] @
     snd (bySizeLoop r bs (fst (go_append h (defaultTags r) [''size:'' @ fmt_d (unat (Size b))])) [])"
  by (simp_all add: Let_def split_beta bySizeLoop_append [of _ _ _ "[_, _]"])

text \<open>On a slice of the heap, every iteration sends the default tags followed by its size.\<close>

lemma bySizeLoop_wf:
  assumes "wf_slice h (defaultTags r)"
  shows "snd (bySizeLoop r bs h []) = concat (map (bySizeGauges (elems h (defaultTags r))) bs)"
    and "wf_slice (fst (bySizeLoop r bs h [])) (defaultTags r)"
    and "elems (fst (bySizeLoop r bs h [])) (defaultTags r) = elems h (defaultTags r)"
    and "length h \<le> length (fst (bySizeLoop r bs h []))"
  using assms
proof (induction bs arbitrary: h)
  case Nil
  {
    case 1 show ?case by simp
  next
    case 2 then show ?case by simp
  next
    case 3 show ?case by simp
  next
    case 4 show ?case by simp
  }
next
  case (Cons b bs)
  let ?x = "''size:'' @ fmt_d (unat (Size b))"
  {
    case 1
    note w = go_append_self [OF 1, of "[?x]"]
    show ?case
      unfolding bySizeLoop_Cons(2) Cons.IH(1) [OF w(1)] w(2,3)
      by (simp add: bySizeGauges_def [of _ b])
  next
    case 2
    note w = go_append_self [OF 2, of "[?x]"]
    show ?case
      by (simp only: bySizeLoop_Cons Cons.IH(2) [OF w(1)])
  next
    case 3
    note w = go_append_self [OF 3, of "[?x]"]
    show ?case
      by (simp only: bySizeLoop_Cons Cons.IH(3) [OF w(1)] w(2))
  next
    case 4
    note w = go_append_self [OF 4, of "[?x]"]
    let ?h = "fst (go_append h (defaultTags r) [?x])"
    have "length h \<le> length ?h"
      by (rule go_append_length)
    also have "\<dots> \<le> length (fst (bySizeLoop r bs ?h []))"
      by (rule Cons.IH(4) [OF w(1)])
    finally show ?case
      by (simp only: bySizeLoop_Cons)
  }
qed

lemma exportMemStats_fields_append:
  "exportMemStats_fields r h dd = dd @ exportMemStats_fields r h []"
  by (simp add: exportMemStats_fields_def Let_def)

lemma exportMemStats_gc_append:
  "exportMemStats_gc r h dd = dd @ exportMemStats_gc r h []"
  by (simp add: exportMemStats_gc_def Let_def)

lemma exportMemStats_eq:
  assumes "NumGC (Mem (stats r)) \<noteq> - 1"
  shows "exportMemStats r lastGCNum h dd =
           Some (fst (bySizeLoop r (BySize_entries (Mem (stats r))) h []),
                 dd @ exportMemStats_fields r h [] @
                 concat (map (pauseSample r h)
                   [unat lastGCNum ..< Suc (unat (NumGC (Mem (stats r))))]) @
                 exportMemStats_gc r h [] @
                 snd (bySizeLoop r (BySize_entries (Mem (stats r))) h []))"
  unfolding exportMemStats_def pauseLoop_eq [OF assms]
  by (simp add: exportMemStats_fields_append [of r h dd] exportMemStats_gc_append [of r h "_ @ _"]
        bySizeLoop_append [of _ _ _ "_ @ _"])

lemma fillStats_simps:
  "Mem (stats (fillStats smp r)) = ReadMemStats smp"
  "defaultTags (fillStats smp r) = defaultTags r"
  "infoTags (fillStats smp r) = infoTags r"
  "runtimeTags (fillStats smp r) = runtimeTags r"
  "period (fillStats smp r) = period r"
  "GoInfo (stats (fillStats smp r)) = GoInfo (stats r)"
  "ServiceInfo (stats (fillStats smp r)) = ServiceInfo (stats r)"
  by (simp_all add: fillStats_def Let_def)

lemma tick_eq:
  assumes "NumGC (ReadMemStats smp) \<noteq> - 1"
  shows "tick smp r h dd = Some (fillStats smp r, tick_heap smp r h, dd @ tick_calls smp r h)"
proof -
  have n: "NumGC (Mem (stats (fillStats smp r))) \<noteq> - 1"
    using assms by (simp add: fillStats_simps)
  show ?thesis
    unfolding tick_def Let_def exportMemStats_eq [OF n] tick_heap_def tick_calls_def
    by (simp add: fillStats_simps exportRuntimeStats_def exportRuntimeInfo_def
          exportServiceInfo_def)
qed

lemma pause_concat_map_filter:
  "concat (map (pauseSample r h) ks) =
     map (\<lambda>t. Timing ''go.mem.pause_ns'' t (elems h (defaultTags r)) f64_one)
       (List.map_filter (\<lambda>k. ParseDuration_ns (PauseNs (Mem (stats r)) (k mod 256))) ks)"
  by (induction ks) (simp_all add: pauseSample_def split: option.split)

lemma filter_pause_pauseSample:
  "filter is_pause_ns (concat (map (pauseSample r h) ks)) = concat (map (pauseSample r h) ks)"
  by (induction ks) (simp_all add: pauseSample_def split: option.split)

lemma filter_pause_bySize:
  "filter is_pause_ns (snd (bySizeLoop r bs h [])) = []"
  by (induction bs arbitrary: h) (simp_all add: bySizeLoop_Cons del: bySizeLoop.simps(2))

lemma filter_pause_others:
  "filter is_pause_ns (exportMemStats_fields r h []) = []"
  "filter is_pause_ns (exportMemStats_gc r h []) = []"
  "filter is_pause_ns (exportRuntimeStats r h []) = []"
  "filter is_pause_ns (exportRuntimeInfo r h []) = []"
  "filter is_pause_ns (exportServiceInfo r h []) = []"
  by (simp_all add: exportMemStats_fields_def exportMemStats_gc_def exportRuntimeStats_def
        exportRuntimeInfo_def exportServiceInfo_def Let_def)

lemma filter_pause_tick_calls:
  "filter is_pause_ns (tick_calls smp r h) =
     concat (map (pauseSample (fillStats smp r) h)
       [unat (NumGC (Mem (stats r))) ..< Suc (unat (NumGC (ReadMemStats smp)))])"
  unfolding tick_calls_def
  by (simp only: filter_append filter_pause_others filter_pause_bySize filter_pause_pauseSample
        append_Nil append_Nil2)

lemma map_filter_all_Some:
  assumes "\<And>k. k \<in> set ks \<Longrightarrow> f k \<noteq> None"
  shows "length (List.map_filter f ks) = length ks"
  using assms by (induction ks) (auto split: option.split)

text \<open>When the GC count is \<open>2 ^ 32 - 1\<close> the pause loop, and the tick with it, does not return.\<close>

lemma pauseLoop_Some_NumGC:
  assumes "pauseLoop r h i dd = Some y"
  shows "NumGC (Mem (stats r)) \<noteq> - 1"
proof (rule pauseLoop.raw_induct [where P = "\<lambda>r h i dd y. NumGC (Mem (stats r)) \<noteq> - 1", OF _ assms])
  fix f :: "Reporter \<Rightarrow> heap \<Rightarrow> u32 \<Rightarrow> statsd \<Rightarrow> statsd option" and r h i dd y
  assume IH: "\<And>r h i dd y. f r h i dd = Some y \<Longrightarrow> NumGC (Mem (stats r)) \<noteq> - 1"
    and eq: "(if i \<le> NumGC (Mem (stats r))
              then case ParseDuration_ns (PauseNs (Mem (stats r)) (unat i mod 256)) of
                     None \<Rightarrow> f r h (i + 1) dd
                   | Some t \<Rightarrow>
                       f r h (i + 1)
                         (dd @ [Timing ''go.mem.pause_ns'' t (elems h (defaultTags r)) f64_one])
              else Some dd) = Some y"
  show "NumGC (Mem (stats r)) \<noteq> - 1"
  proof (cases "i \<le> NumGC (Mem (stats r))")
    case True
    with eq have "\<exists>dd'. f r h (i + 1) dd' = Some y"
      by (auto split: option.splits)
    then obtain dd' where "f r h (i + 1) dd' = Some y" ..
    then show ?thesis by (rule IH)
  next
    case False
    show ?thesis
    proof
      assume "NumGC (Mem (stats r)) = - 1"
      then have "i \<le> NumGC (Mem (stats r))" by simp
      with False show False ..
    qed
  qed
qed

lemma pauseLoop_diverges:
  assumes "NumGC (Mem (stats r)) = - 1"
  shows "pauseLoop r h i dd = None"
proof (cases "pauseLoop r h i dd")
  case None
  then show ?thesis .
next
  case (Some y)
  from pauseLoop_Some_NumGC [OF this] assms show ?thesis ..
qed

lemma tick_diverges:
  assumes "NumGC (ReadMemStats smp) = - 1"
  shows "tick smp r h dd = None"
proof -
  have "NumGC (Mem (stats (fillStats smp r))) = - 1"
    using assms by (simp add: fillStats_simps)
  then show ?thesis
    by (simp add: tick_def Let_def exportMemStats_def pauseLoop_diverges)
qed

lemma tick_SomeD:
  assumes "tick smp r h dd = Some x"
  shows "NumGC (ReadMemStats smp) \<noteq> - 1"
  using assms tick_diverges [of smp r h dd] by auto

lemma tick_Some_iff:
  "tick smp r h dd = Some x \<longleftrightarrow>
     NumGC (ReadMemStats smp) \<noteq> - 1 \<and>
     x = (fillStats smp r, tick_heap smp r h, dd @ tick_calls smp r h)"
proof (cases "NumGC (ReadMemStats smp) = - 1")
  case True
  then show ?thesis
    by (simp add: tick_diverges)
next
  case False
  then show ?thesis
    unfolding tick_eq [OF False] by auto
qed

subsection \<open>The reporter that New makes\<close>

lemma New_no_options:
  "period (rep (New h0 env dd0 [])) = DefaultPeriod"
  "defaultTags (rep (New h0 env dd0 [])) = empty_slice"
  "Mem (stats (rep (New h0 env dd0 []))) = MemStats_zero"
  by (simp_all add: New_def buildTags_def Let_def split_beta)

lemma New_worker:
  "timer (New h0 env dd0 opts) = Armed 0"
  "cancelled (New h0 env dd0 opts) = False"
  "returned (New h0 env dd0 opts) = False"
  "sent (New h0 env dd0 opts) = dd0 @ [Count ''startup'' 1 [] f64_one]"
  by (simp_all add: New_def Let_def split_beta)

lemma New_static:
  "GoInfo (stats (rep (New h0 env dd0 opts))) =
     \<lparr>Arch = GOARCH env, OS = GOOS env, Version = runtime_Version env\<rparr>"
  "ServiceInfo (stats (rep (New h0 env dd0 opts))) = GetInfo (svcinfo env)"
  "Mem (stats (rep (New h0 env dd0 opts))) = MemStats_zero"
  by (simp_all add: New_def buildTags_def Let_def split_beta)

lemma example_sample_simps:
  "NumGC (ReadMemStats (example_sample n p bs e)) = n"
  "PauseNs (ReadMemStats (example_sample n p bs e)) = p"
  "BySize (ReadMemStats (example_sample n p bs e)) = bs"
  "NumForcedGC (ReadMemStats (example_sample n p bs e)) = 0"
  "time_Since_start (example_sample n p bs e) = e"
  by (simp_all add: example_sample_def MemStats_zero_def)

lemma BySize_entries_simps:
  "length (BySize_entries m) = 61"
  "i < 61 \<Longrightarrow> BySize_entries m ! i = BySize m i"
  "last (BySize_entries m) = BySize m 60"
  "set (BySize_entries m) = BySize m ` {0 ..< 61}"
  by (simp_all add: BySize_entries_def last_map)

subsection \<open>The pause samples of a tick\<close>

text \<open>
  C1 (as amended). A tick whose snapshot has a GC count below \<open>2 ^ 32 - 1\<close> returns, and
  its timing samples named \<^verbatim>\<open>go.mem.pause_ns\<close> are, in order, the parsed pause values at the
  ring positions \<open>i mod 256\<close> for the indices \<open>i\<close> from the GC count of the previous
  snapshot to the GC count of this one, both included, leaving out the entries that do not
  parse. When the previous count is not above the current one and every entry in the range
  parses (is below \<open>2 ^ 63\<close>), these are exactly current - last + 1 samples.
\<close>

theorem pause_samples_of_tick:
  assumes "NumGC (ReadMemStats smp) \<noteq> - 1"
  shows "\<exists>h' out. tick smp r h dd = Some (fillStats smp r, h', dd @ out) \<and>
           filter is_pause_ns out =
             map (\<lambda>t. Timing ''go.mem.pause_ns'' t (elems h (defaultTags r)) f64_one)
               (List.map_filter (\<lambda>i. ParseDuration_ns (PauseNs (ReadMemStats smp) (i mod 256)))
                  [unat (NumGC (Mem (stats r))) ..< Suc (unat (NumGC (ReadMemStats smp)))]) \<and>
           (NumGC (Mem (stats r)) \<le> NumGC (ReadMemStats smp) \<and>
            (\<forall>i \<in> {unat (NumGC (Mem (stats r))) .. unat (NumGC (ReadMemStats smp))}.
               unat (PauseNs (ReadMemStats smp) (i mod 256)) < 2 ^ 63) \<longrightarrow>
            int (length (filter is_pause_ns out)) =
              int (unat (NumGC (ReadMemStats smp))) - int (unat (NumGC (Mem (stats r)))) + 1)"
proof -
  let ?r = "fillStats smp r"
  let ?ks = "[unat (NumGC (Mem (stats r))) ..< Suc (unat (NumGC (ReadMemStats smp)))]"
  let ?f = "\<lambda>i. ParseDuration_ns (PauseNs (ReadMemStats smp) (i mod 256))"
  let ?out = "tick_calls smp r h"
  have t: "tick smp r h dd = Some (?r, tick_heap smp r h, dd @ ?out)"
    by (rule tick_eq [OF assms])
  have f: "filter is_pause_ns ?out =
             map (\<lambda>t. Timing ''go.mem.pause_ns'' t (elems h (defaultTags r)) f64_one)
               (List.map_filter ?f ?ks)"
    by (simp add: filter_pause_tick_calls pause_concat_map_filter fillStats_simps del: upt_Suc)
  have c: "int (length (filter is_pause_ns ?out)) =
             int (unat (NumGC (ReadMemStats smp))) - int (unat (NumGC (Mem (stats r)))) + 1"
    if le: "NumGC (Mem (stats r)) \<le> NumGC (ReadMemStats smp)"
      and ok: "\<forall>i \<in> {unat (NumGC (Mem (stats r))) .. unat (NumGC (ReadMemStats smp))}.
                 unat (PauseNs (ReadMemStats smp) (i mod 256)) < 2 ^ 63"
  proof -
    have "length (List.map_filter ?f ?ks) = length ?ks"
      using ok by (intro map_filter_all_Some) (auto simp: ParseDuration_ns_def)
    moreover have "unat (NumGC (Mem (stats r))) \<le> unat (NumGC (ReadMemStats smp))"
      using le by (simp add: word_le_nat_alt)
    ultimately show ?thesis
      unfolding f by simp
  qed
  from t f c show ?thesis by blast
qed

theorem pause_samples_of_tick_witness:
  "NumGC (ReadMemStats (example_sample 13 (\<lambda>_. 5) example_classes 1000)) \<noteq> - 1 \<and>
   length (filter is_pause_ns (snd (snd (the
     (tick (example_sample 13 (\<lambda>_. 5) example_classes 1000)
        (fillStats (example_sample 10 (\<lambda>_. 5) example_classes 1000)
           (rep (New [] example_env [] [])))
        (heap (New [] example_env [] [])) []))))) = 4"
proof -
  let ?smp = "example_sample 13 (\<lambda>_. 5) example_classes 1000"
  let ?r = "fillStats (example_sample 10 (\<lambda>_. 5) example_classes 1000)
              (rep (New [] example_env [] []))"
  let ?h = "heap (New [] example_env [] [])"
  have n: "NumGC (ReadMemStats ?smp) \<noteq> - 1"
    by (simp add: example_sample_simps)
  from pause_samples_of_tick [OF n, of ?r ?h "[]"]
  obtain h' out where t: "tick ?smp ?r ?h [] = Some (fillStats ?smp ?r, h', [] @ out)"
    and c: "NumGC (Mem (stats ?r)) \<le> NumGC (ReadMemStats ?smp) \<and>
            (\<forall>i \<in> {unat (NumGC (Mem (stats ?r))) .. unat (NumGC (ReadMemStats ?smp))}.
               unat (PauseNs (ReadMemStats ?smp) (i mod 256)) < 2 ^ 63) \<longrightarrow>
            int (length (filter is_pause_ns out)) =
              int (unat (NumGC (ReadMemStats ?smp))) - int (unat (NumGC (Mem (stats ?r)))) + 1"
    by blast
  have "int (length (filter is_pause_ns out)) = 4"
    using c by (simp add: example_sample_simps fillStats_simps)
  then show ?thesis
    using n t by simp
qed

text \<open>
  C1 as stated fails where an entry in the range does not parse: with the counts 0 and 3
  and the ring entry 1 equal to \<open>2 ^ 63\<close>, the pass sends 3 samples, not 3 - 0 + 1.
\<close>

theorem pause_samples_counterexample:
  "map_option (\<lambda>(r', h', out). length (filter is_pause_ns out))
     (tick (example_sample 3 (\<lambda>i. if i = 1 then 2 ^ 63 else 5) example_classes 1000)
        (rep (New [] example_env [] [])) (heap (New [] example_env [] [])) []) = Some 3 \<and>
   NumGC (Mem (stats (rep (New [] example_env [] [])))) = 0 \<and>
   NumGC (ReadMemStats (example_sample 3 (\<lambda>i. if i = 1 then 2 ^ 63 else 5) example_classes 1000)) = 3"
proof -
  let ?smp = "example_sample 3 (\<lambda>i. if i = 1 then 2 ^ 63 else 5) example_classes 1000"
  let ?r = "rep (New [] example_env [] [])"
  let ?h = "heap (New [] example_env [] [])"
  let ?ks = "[unat (NumGC (Mem (stats ?r))) ..< Suc (unat (NumGC (ReadMemStats ?smp)))]"
  have n: "NumGC (ReadMemStats ?smp) \<noteq> - 1"
    by (simp add: example_sample_simps)
  have t: "tick ?smp ?r ?h [] = Some (fillStats ?smp ?r, tick_heap ?smp ?r ?h, [] @ tick_calls ?smp ?r ?h)"
    by (rule tick_eq [OF n])
  have ks: "?ks = [0, 1, 2, 3]"
    by (simp add: example_sample_simps New_no_options MemStats_zero_def upt_conv_Cons)
  have "filter is_pause_ns (tick_calls ?smp ?r ?h) =
          concat (map (pauseSample (fillStats ?smp ?r) ?h) ?ks)"
    by (rule filter_pause_tick_calls)
  also have "length \<dots> = 3"
    unfolding ks
    by (simp add: pauseSample_def fillStats_simps example_sample_simps ParseDuration_ns_def)
  finally have len: "length (filter is_pause_ns (tick_calls ?smp ?r ?h)) = 3" .
  have "map_option (\<lambda>(r', h', out). length (filter is_pause_ns out)) (tick ?smp ?r ?h []) = Some 3"
    unfolding t using len by simp
  then show ?thesis
    by (simp add: example_sample_simps New_no_options MemStats_zero_def)
qed

subsection \<open>The tag slices across a pass\<close>

lemma apart_go_append:
  assumes "apart h s t" and "xs \<noteq> []"
  shows "apart (fst (go_append h s xs)) s t"
    and "elems (fst (go_append h s xs)) t = elems h t"
  using assms by (auto simp: apart_def go_append_def elems_def nth_append)

lemma bySizeLoop_apart:
  assumes "apart h (defaultTags r) t"
  shows "apart (fst (bySizeLoop r bs h [])) (defaultTags r) t"
    and "elems (fst (bySizeLoop r bs h [])) t = elems h t"
  using assms
proof (induction bs arbitrary: h)
  case Nil
  {
    case 1 then show ?case by simp
  next
    case 2 show ?case by simp
  }
next
  case (Cons b bs)
  let ?x = "''size:'' @ fmt_d (unat (Size b))"
  {
    case 1
    have "apart (fst (go_append h (defaultTags r) [?x])) (defaultTags r) t"
      using 1 by (rule apart_go_append) simp
    from Cons.IH(1) [OF this] show ?case
      by (simp only: bySizeLoop_Cons)
  next
    case 2
    have a: "apart (fst (go_append h (defaultTags r) [?x])) (defaultTags r) t"
      using 2 by (rule apart_go_append) simp
    have e: "elems (fst (go_append h (defaultTags r) [?x])) t = elems h t"
      using 2 by (rule apart_go_append) simp
    from Cons.IH(2) [OF a] e show ?case
      by (simp only: bySizeLoop_Cons)
  }
qed

text \<open>
  When the default tags have spare capacity, the size-class loop leaves the tag of its last
  class behind them, where a slice on the same array sees it.
\<close>

lemma bySizeLoop_shared:
  assumes "wf_slice h (defaultTags r)" and "len (defaultTags r) < cap (defaultTags r)"
    and "array t = array (defaultTags r)" and "bs \<noteq> []"
  shows "elems (fst (bySizeLoop r bs h [])) t =
           (elems h t)[len (defaultTags r) := ''size:'' @ fmt_d (unat (Size (last bs)))]"
  using assms(1,4)
proof (induction bs arbitrary: h)
  case Nil
  then show ?case by simp
next
  case (Cons b bs)
  let ?x = "''size:'' @ fmt_d (unat (Size b))"
  let ?h = "fst (go_append h (defaultTags r) [?x])"
  have w: "wf_slice ?h (defaultTags r)"
    using Cons.prems(1) by (rule go_append_self)
  have e: "elems ?h t = (elems h t)[len (defaultTags r) := ?x]"
    using assms(2,3) by (simp add: go_append_in_place)
  show ?case
  proof (cases "bs = []")
    case True
    have f: "fst (bySizeLoop r (b # bs) h []) = ?h"
      unfolding bySizeLoop_Cons(1) True by (simp only: bySizeLoop.simps(1) fst_conv)
    show ?thesis
      unfolding f e using True by simp
  next
    case False
    from Cons.IH [OF w False] e False show ?thesis
      by (simp only: bySizeLoop_Cons last.simps if_False list_update_overwrite)
  qed
qed

lemma tick_heap_tags_inv:
  assumes "tags_inv D T v a os h r"
  shows "tags_inv D T v a os (tick_heap smp r h) (fillStats smp r)"
    and "elems (tick_heap smp r h) (defaultTags r) = D"
    and "elems (tick_heap smp r h) (infoTags r) = T"
    and "elems (tick_heap smp r h) (runtimeTags r) =
           D @ [if len (defaultTags r) + 3 \<le> cap (defaultTags r)
                then ''size:'' @ fmt_d (unat (Size (BySize (ReadMemStats smp) 60))) else v,
                a, os]"
proof -
  let ?r = "fillStats smp r"
  let ?bs = "BySize_entries (ReadMemStats smp)"
  let ?h = "fst (bySizeLoop ?r ?bs h [])"
  let ?s = "defaultTags r"
  from assms have w: "wf_slice h (defaultTags ?r)" and d: "elems h ?s = D"
    and ai: "apart h (defaultTags ?r) (infoTags r)" and ei: "elems h (infoTags r) = T"
    and li: "len (infoTags r) = length T"
    by (simp_all add: tags_inv_def fillStats_simps)
  note s = bySizeLoop_wf [OF w, of ?bs]
  note i = bySizeLoop_apart [OF ai, of ?bs]
  have w': "wf_slice ?h ?s" and d': "elems ?h ?s = D"
    using s(2,3) d by (simp_all add: fillStats_simps)
  have ai': "apart ?h ?s (infoTags r)" and ei': "elems ?h (infoTags r) = T"
    using i ei by (simp_all add: fillStats_simps)
  have ne: "?bs \<noteq> []"
    using BySize_entries_simps(1) [of "ReadMemStats smp"] by auto
  have rt: "(if len ?s + 3 \<le> cap ?s
             then runtimeTags r = ?s\<lparr>len := len ?s + 3\<rparr> \<and>
                  elems ?h (runtimeTags r) =
                    D @ [''size:'' @ fmt_d (unat (Size (BySize (ReadMemStats smp) 60))), a, os]
             else apart ?h ?s (runtimeTags r) \<and> elems ?h (runtimeTags r) = D @ [v, a, os])"
  proof (cases "len ?s + 3 \<le> cap ?s")
    case True
    with assms obtain x where r: "runtimeTags r = ?s\<lparr>len := len ?s + 3\<rparr>"
      and x: "elems h (runtimeTags r) = D @ [x, a, os]"
      by (auto simp: tags_inv_def)
    from True have lt: "len (defaultTags ?r) < cap (defaultTags ?r)"
      by (simp add: fillStats_simps)
    have ar: "array (runtimeTags r) = array (defaultTags ?r)"
      by (simp add: r fillStats_simps)
    have l: "len ?s = length D"
      using wf_slice_length [OF w] d by (simp add: fillStats_simps)
    have "elems ?h (runtimeTags r) =
            (elems h (runtimeTags r))[len (defaultTags ?r) := ''size:'' @ fmt_d (unat (Size (last ?bs)))]"
      using w lt ar ne by (rule bySizeLoop_shared)
    also have "\<dots> = D @ [''size:'' @ fmt_d (unat (Size (BySize (ReadMemStats smp) 60))), a, os]"
      unfolding x BySize_entries_simps(3) fillStats_simps l by (simp only: list_update_length)
    finally have e: "elems ?h (runtimeTags r) =
        D @ [''size:'' @ fmt_d (unat (Size (BySize (ReadMemStats smp) 60))), a, os]" .
    show ?thesis
      unfolding if_P [OF True] using r e by (rule conjI)
  next
    case False
    with assms have a: "apart h (defaultTags ?r) (runtimeTags r)"
      and e: "elems h (runtimeTags r) = D @ [v, a, os]"
      by (simp_all add: tags_inv_def fillStats_simps)
    from bySizeLoop_apart [OF a, of ?bs] e False show ?thesis
      by (simp add: fillStats_simps)
  qed
  show "tags_inv D T v a os (tick_heap smp r h) ?r"
    unfolding tags_inv_def tick_heap_def fillStats_simps
    using w' d' ai' ei' li rt by auto
  show "elems (tick_heap smp r h) ?s = D"
    unfolding tick_heap_def by (rule d')
  show "elems (tick_heap smp r h) (infoTags r) = T"
    unfolding tick_heap_def by (rule ei')
  show "elems (tick_heap smp r h) (runtimeTags r) =
           D @ [if len ?s + 3 \<le> cap ?s
                then ''size:'' @ fmt_d (unat (Size (BySize (ReadMemStats smp) 60))) else v,
                a, os]"
    unfolding tick_heap_def using rt by (auto split: if_splits)
qed

subsection \<open>The tag slices that New builds\<close>

lemma buildTags_fields:
  "period (snd (buildTags g h r)) = period r"
  "stats (snd (buildTags g h r)) = stats r"
  "defaultTags (snd (buildTags g h r)) = defaultTags r"
  "infoTags (snd (buildTags g h r)) = snd (GetDDTags g h)"
  "runtimeTags (snd (buildTags g h r)) =
     snd (go_append (fst (GetDDTags g h)) (defaultTags r)
       [''version:'' @ GoInfo.Version (GoInfo (stats r)), ''arch:'' @ Arch (GoInfo (stats r)),
        ''os:'' @ OS (GoInfo (stats r))])"
  "fst (buildTags g h r) =
     fst (go_append (fst (GetDDTags g h)) (defaultTags r)
       [''version:'' @ GoInfo.Version (GoInfo (stats r)), ''arch:'' @ Arch (GoInfo (stats r)),
        ''os:'' @ OS (GoInfo (stats r))])"
  by (simp_all add: buildTags_def Let_def split_beta)

lemma buildTags_tags_inv:
  assumes "wf_slice h (defaultTags r)"
  shows "tags_inv (elems h (defaultTags r)) (DDTags g)
           (''version:'' @ GoInfo.Version (GoInfo (stats r))) (''arch:'' @ Arch (GoInfo (stats r)))
           (''os:'' @ OS (GoInfo (stats r))) (fst (buildTags g h r)) (snd (buildTags g h r))"
    and "elems (fst (buildTags g h r)) (runtimeTags (snd (buildTags g h r))) =
           elems h (defaultTags r) @
             [''version:'' @ GoInfo.Version (GoInfo (stats r)), ''arch:'' @ Arch (GoInfo (stats r)),
              ''os:'' @ OS (GoInfo (stats r))]"
proof -
  let ?s = "defaultTags r"
  let ?h1 = "fst (GetDDTags g h)"
  let ?t = "snd (GetDDTags g h)"
  let ?R = "[''version:'' @ GoInfo.Version (GoInfo (stats r)), ''arch:'' @ Arch (GoInfo (stats r)),
             ''os:'' @ OS (GoInfo (stats r))]"
  let ?h2 = "fst (go_append ?h1 ?s ?R)"
  let ?rt = "snd (go_append ?h1 ?s ?R)"
  note g = GetDDTags_spec [where g = g and h = h]
  have w1: "wf_slice ?h1 ?s" and d1: "elems ?h1 ?s = elems h ?s"
    using wf_slice_grown [OF assms g(3,4)] by simp_all
  have a1: "apart ?h1 ?s ?t"
    using g(5) assms by (auto simp: apart_def wf_slice_def)
  note w2 = go_append_self [OF w1, where xs = ?R]
  have a2: "apart ?h2 ?s ?t" and e2: "elems ?h2 ?t = DDTags g"
    using apart_go_append [OF a1, where xs = ?R] g(1) by simp_all
  have rt: "(if len ?s + 3 \<le> cap ?s
             then ?rt = ?s\<lparr>len := len ?s + 3\<rparr>
             else apart ?h2 ?s ?rt)"
    using assms g(3) by (auto simp: go_append_def apart_def wf_slice_def)
  have e: "elems ?h2 ?rt = elems h ?s @ ?R"
    using w2(3) d1 by simp
  show "elems (fst (buildTags g h r)) (runtimeTags (snd (buildTags g h r))) = elems h ?s @ ?R"
    unfolding buildTags_fields by (rule e)
  show "tags_inv (elems h ?s) (DDTags g)
           (''version:'' @ GoInfo.Version (GoInfo (stats r))) (''arch:'' @ Arch (GoInfo (stats r)))
           (''os:'' @ OS (GoInfo (stats r))) (fst (buildTags g h r)) (snd (buildTags g h r))"
    unfolding tags_inv_def buildTags_fields
    using w2(1,2) d1 a2 e2 g(2) rt e by (auto split: if_splits)
qed

lemma New_fields:
  "defaultTags (rep (New h0 env dd0 opts)) =
     defaultTags (foldl (\<lambda>r opt. opt r)
       \<lparr>period = DefaultPeriod, stats = Stats_zero, defaultTags = empty_slice,
        infoTags = empty_slice, runtimeTags = empty_slice\<rparr> opts)"
  "period (rep (New h0 env dd0 opts)) =
     period (foldl (\<lambda>r opt. opt r)
       \<lparr>period = DefaultPeriod, stats = Stats_zero, defaultTags = empty_slice,
        infoTags = empty_slice, runtimeTags = empty_slice\<rparr> opts)"
  by (simp_all add: New_def Let_def split_beta buildTags_fields)

lemma New_tags_inv:
  assumes "wf_slice h0 (defaultTags (rep (New h0 env dd0 opts)))"
  shows "tags_inv (elems h0 (defaultTags (rep (New h0 env dd0 opts)))) (DDTags (svcinfo env))
           (''version:'' @ runtime_Version env) (''arch:'' @ GOARCH env) (''os:'' @ GOOS env)
           (heap (New h0 env dd0 opts)) (rep (New h0 env dd0 opts))"
    and "elems (heap (New h0 env dd0 opts)) (runtimeTags (rep (New h0 env dd0 opts))) =
           elems h0 (defaultTags (rep (New h0 env dd0 opts))) @
             [''version:'' @ runtime_Version env, ''arch:'' @ GOARCH env, ''os:'' @ GOOS env]"
    and "elems (heap (New h0 env dd0 opts)) (infoTags (rep (New h0 env dd0 opts))) =
           DDTags (svcinfo env)"
    and "len (infoTags (rep (New h0 env dd0 opts))) = length (DDTags (svcinfo env))"
proof -
  let ?r0 = "foldl (\<lambda>r opt. opt r)
       \<lparr>period = DefaultPeriod, stats = Stats_zero, defaultTags = empty_slice,
        infoTags = empty_slice, runtimeTags = empty_slice\<rparr> opts"
  let ?q = "?r0\<lparr>stats := (stats ?r0)\<lparr>ServiceInfo := GetInfo (svcinfo env),
              GoInfo := \<lparr>Arch = GOARCH env, OS = GOOS env, Version = runtime_Version env\<rparr>,
              Mem := MemStats_zero, Runtime := RuntimeStats_zero\<rparr>\<rparr>"
  have n: "rep (New h0 env dd0 opts) = snd (buildTags (svcinfo env) h0 ?q)"
    and h: "heap (New h0 env dd0 opts) = fst (buildTags (svcinfo env) h0 ?q)"
    by (simp_all add: New_def Let_def split_beta)
  have d: "defaultTags (rep (New h0 env dd0 opts)) = defaultTags ?q"
    by (simp add: New_fields)
  from assms have w: "wf_slice h0 (defaultTags ?q)"
    by (simp add: d)
  note b = buildTags_tags_inv [OF w, where g = "svcinfo env"]
  show i: "tags_inv (elems h0 (defaultTags (rep (New h0 env dd0 opts)))) (DDTags (svcinfo env))
           (''version:'' @ runtime_Version env) (''arch:'' @ GOARCH env) (''os:'' @ GOOS env)
           (heap (New h0 env dd0 opts)) (rep (New h0 env dd0 opts))"
    unfolding d unfolding n h using b(1) by simp
  show "elems (heap (New h0 env dd0 opts)) (runtimeTags (rep (New h0 env dd0 opts))) =
           elems h0 (defaultTags (rep (New h0 env dd0 opts))) @
             [''version:'' @ runtime_Version env, ''arch:'' @ GOARCH env, ''os:'' @ GOOS env]"
    unfolding d unfolding n h using b(2) by simp
  from i show "elems (heap (New h0 env dd0 opts)) (infoTags (rep (New h0 env dd0 opts))) =
           DDTags (svcinfo env)"
    by (simp add: tags_inv_def)
  from i show "len (infoTags (rep (New h0 env dd0 opts))) = length (DDTags (svcinfo env))"
    by (simp add: tags_inv_def)
qed

subsection \<open>Construction\<close>

lemma New_DefaultTags:
  "defaultTags (rep (New h0 env dd0 [DefaultTags tags])) = tags"
  "defaultTags (rep (New h0 env dd0 [Period t, DefaultTags tags])) = tags"
  by (simp_all add: New_fields DefaultTags_def Period_def)

text \<open>
  C5. Without options the reporter made by \<^verbatim>\<open>New\<close> has the period 5 seconds
  (\<open>5 * 10 ^ 9\<close> nanoseconds) and no default tags: the nil slice. The option \<^verbatim>\<open>Period\<close>
  replaces the period and nothing else. The option \<^verbatim>\<open>DefaultTags\<close> replaces the slice of
  the default tags, which \<^verbatim>\<open>buildTags\<close> then extends to the runtime tags, and nothing else
  of the reporter and its worker: when the slice given is a slice of the heap, the default
  tags are its elements, the runtime tags are these elements followed by the runtime tags
  of the reporter without options, and the tags of \<^verbatim>\<open>info\<close> are as without options.
\<close>

theorem New_defaults_and_options:
  "period (rep (New h0 env dd0 [])) = 5 * 1000000000 \<and>
   defaultTags (rep (New h0 env dd0 [])) = empty_slice \<and>
   elems (heap (New h0 env dd0 [])) (defaultTags (rep (New h0 env dd0 []))) = [] \<and>
   Period t r = r\<lparr>period := t\<rparr> \<and>
   DefaultTags tags r = r\<lparr>defaultTags := tags\<rparr> \<and>
   New h0 env dd0 [Period t] = (New h0 env dd0 [])\<lparr>rep := (rep (New h0 env dd0 []))\<lparr>period := t\<rparr>\<rparr> \<and>
   New h0 env dd0 [DefaultTags tags] =
     (New h0 env dd0 [])
       \<lparr>rep := (rep (New h0 env dd0 []))
          \<lparr>defaultTags := tags,
           runtimeTags := runtimeTags (rep (New h0 env dd0 [DefaultTags tags]))\<rparr>,
        heap := heap (New h0 env dd0 [DefaultTags tags])\<rparr> \<and>
   New h0 env dd0 [Period t, DefaultTags tags] =
     (New h0 env dd0 [DefaultTags tags])
       \<lparr>rep := (rep (New h0 env dd0 [DefaultTags tags]))\<lparr>period := t\<rparr>\<rparr> \<and>
   (wf_slice h0 tags \<longrightarrow>
      elems (heap (New h0 env dd0 [DefaultTags tags]))
        (defaultTags (rep (New h0 env dd0 [DefaultTags tags]))) = elems h0 tags \<and>
      elems (heap (New h0 env dd0 [DefaultTags tags]))
        (runtimeTags (rep (New h0 env dd0 [DefaultTags tags]))) =
        elems h0 tags @ elems (heap (New h0 env dd0 [])) (runtimeTags (rep (New h0 env dd0 []))) \<and>
      elems (heap (New h0 env dd0 [DefaultTags tags]))
        (infoTags (rep (New h0 env dd0 [DefaultTags tags]))) =
        elems (heap (New h0 env dd0 [])) (infoTags (rep (New h0 env dd0 []))))"
proof -
  have p: "period (rep (New h0 env dd0 [])) = 5 * 1000000000"
    by (simp add: New_no_options DefaultPeriod_def Second_def)
  have d: "defaultTags (rep (New h0 env dd0 [])) = empty_slice"
    by (rule New_no_options)
  have e: "elems (heap (New h0 env dd0 [])) (defaultTags (rep (New h0 env dd0 []))) = []"
    unfolding d by (rule elems_empty_slice)
  have o1: "Period t r = r\<lparr>period := t\<rparr>"
    by (rule Period_def)
  have o2: "DefaultTags tags r = r\<lparr>defaultTags := tags\<rparr>"
    by (rule DefaultTags_def)
  have n1: "New h0 env dd0 [Period t] =
              (New h0 env dd0 [])\<lparr>rep := (rep (New h0 env dd0 []))\<lparr>period := t\<rparr>\<rparr>"
    by (simp add: New_def buildTags_def Let_def split_beta Period_def)
  have n2: "New h0 env dd0 [DefaultTags tags] =
     (New h0 env dd0 [])
       \<lparr>rep := (rep (New h0 env dd0 []))
          \<lparr>defaultTags := tags,
           runtimeTags := runtimeTags (rep (New h0 env dd0 [DefaultTags tags]))\<rparr>,
        heap := heap (New h0 env dd0 [DefaultTags tags])\<rparr>"
    by (simp add: New_def buildTags_def Let_def split_beta DefaultTags_def)
  have n3: "New h0 env dd0 [Period t, DefaultTags tags] =
     (New h0 env dd0 [DefaultTags tags])
       \<lparr>rep := (rep (New h0 env dd0 [DefaultTags tags]))\<lparr>period := t\<rparr>\<rparr>"
    by (simp add: New_def buildTags_def Let_def split_beta DefaultTags_def Period_def)
  have w: "elems (heap (New h0 env dd0 [DefaultTags tags]))
        (defaultTags (rep (New h0 env dd0 [DefaultTags tags]))) = elems h0 tags \<and>
      elems (heap (New h0 env dd0 [DefaultTags tags]))
        (runtimeTags (rep (New h0 env dd0 [DefaultTags tags]))) =
        elems h0 tags @ elems (heap (New h0 env dd0 [])) (runtimeTags (rep (New h0 env dd0 []))) \<and>
      elems (heap (New h0 env dd0 [DefaultTags tags]))
        (infoTags (rep (New h0 env dd0 [DefaultTags tags]))) =
        elems (heap (New h0 env dd0 [])) (infoTags (rep (New h0 env dd0 [])))"
    if wf: "wf_slice h0 tags"
  proof -
    from wf have w1: "wf_slice h0 (defaultTags (rep (New h0 env dd0 [DefaultTags tags])))"
      by (simp only: New_DefaultTags)
    have w0: "wf_slice h0 (defaultTags (rep (New h0 env dd0 [])))"
      unfolding d by (rule wf_empty_slice)
    note a = New_tags_inv [OF w1]
    note b = New_tags_inv [OF w0]
    have "elems (heap (New h0 env dd0 [DefaultTags tags]))
            (defaultTags (rep (New h0 env dd0 [DefaultTags tags]))) = elems h0 tags"
      using a(1) by (simp add: tags_inv_def New_DefaultTags)
    moreover have "elems (heap (New h0 env dd0 [DefaultTags tags]))
        (runtimeTags (rep (New h0 env dd0 [DefaultTags tags]))) =
        elems h0 tags @ elems (heap (New h0 env dd0 [])) (runtimeTags (rep (New h0 env dd0 [])))"
      unfolding a(2) b(2) New_DefaultTags d elems_empty_slice by simp
    moreover have "elems (heap (New h0 env dd0 [DefaultTags tags]))
        (infoTags (rep (New h0 env dd0 [DefaultTags tags]))) =
        elems (heap (New h0 env dd0 [])) (infoTags (rep (New h0 env dd0 [])))"
      unfolding a(3) b(3) ..
    ultimately show ?thesis
      by (intro conjI)
  qed
  from p d e o1 o2 n1 n2 n3 w show ?thesis
    by blast
qed

lemma wf_examples:
  "wf_slice exact_heap exact_tags"
  "wf_slice roomy_heap roomy_tags"
  "elems exact_heap exact_tags = [''env:prod'']"
  "elems roomy_heap roomy_tags = [''env:prod'']"
  by (simp_all add: wf_slice_def elems_def exact_heap_def exact_tags_def roomy_heap_def
        roomy_tags_def)

lemma example_env_tags:
  "DDTags (svcinfo example_env) = [''commit:abc123'', ''version:1.2'']"
  "runtime_Version example_env = ''go1.11''"
  "GOARCH example_env = ''amd64''"
  "GOOS example_env = ''linux''"
  by (simp_all add: DDTags_def example_env_def)

theorem New_defaults_and_options_witness:
  "wf_slice roomy_heap roomy_tags \<and>
   elems (heap (New roomy_heap example_env [] [DefaultTags roomy_tags]))
     (defaultTags (rep (New roomy_heap example_env [] [DefaultTags roomy_tags]))) = [''env:prod''] \<and>
   elems (heap (New roomy_heap example_env [] [DefaultTags roomy_tags]))
     (runtimeTags (rep (New roomy_heap example_env [] [DefaultTags roomy_tags]))) =
     [''env:prod'', ''version:go1.11'', ''arch:amd64'', ''os:linux''] \<and>
   elems (heap (New roomy_heap example_env [] [DefaultTags roomy_tags]))
     (infoTags (rep (New roomy_heap example_env [] [DefaultTags roomy_tags]))) =
     [''commit:abc123'', ''version:1.2'']"
proof -
  have w0: "wf_slice roomy_heap (defaultTags (rep (New roomy_heap example_env [] [])))"
    unfolding New_no_options by (rule wf_empty_slice)
  note b = New_tags_inv [OF w0]
  have r0: "elems (heap (New roomy_heap example_env [] []))
              (runtimeTags (rep (New roomy_heap example_env [] []))) =
            [''version:go1.11'', ''arch:amd64'', ''os:linux'']"
    unfolding b(2) New_no_options elems_empty_slice example_env_tags by simp
  have i0: "elems (heap (New roomy_heap example_env [] []))
              (infoTags (rep (New roomy_heap example_env [] []))) =
            [''commit:abc123'', ''version:1.2'']"
    unfolding b(3) example_env_tags ..
  from New_defaults_and_options [of roomy_heap example_env "[]" _ _ roomy_tags] wf_examples(2)
  have "elems (heap (New roomy_heap example_env [] [DefaultTags roomy_tags]))
          (defaultTags (rep (New roomy_heap example_env [] [DefaultTags roomy_tags]))) =
        elems roomy_heap roomy_tags"
    and "elems (heap (New roomy_heap example_env [] [DefaultTags roomy_tags]))
          (runtimeTags (rep (New roomy_heap example_env [] [DefaultTags roomy_tags]))) =
        elems roomy_heap roomy_tags @
          elems (heap (New roomy_heap example_env [] []))
            (runtimeTags (rep (New roomy_heap example_env [] [])))"
    and "elems (heap (New roomy_heap example_env [] [DefaultTags roomy_tags]))
          (infoTags (rep (New roomy_heap example_env [] [DefaultTags roomy_tags]))) =
        elems (heap (New roomy_heap example_env [] []))
          (infoTags (rep (New roomy_heap example_env [] [])))"
    by blast+
  then show ?thesis
    unfolding r0 i0 wf_examples(4) using wf_examples(2) by simp
qed

subsection \<open>The size-class gauges of a tick\<close>





lemma length_bySizeLoop:
  "length (snd (bySizeLoop r bs h [])) = 2 * length bs"
  by (induction bs arbitrary: h) (simp_all add: bySizeLoop_Cons del: bySizeLoop.simps(2))






subsection \<open>Pause values that do not parse\<close>

lemma length_concat_pairs:
  "length (concat (map (\<lambda>b. [p b, q b]) xs)) = 2 * length xs"
  by (induction xs) simp_all

text \<open>
  C9 (what the code does, and where the claim fails). In the pause loop, when the GC count
  of the snapshot is below \<open>2 ^ 32 - 1\<close>, an index in range whose ring entry does not parse
  sends nothing, and the loop goes on with the next index and returns, having sent the
  samples of the later entries that parse. The tick is not aborted: it returns, and it has
  sent, in this order, the 24 field gauges, the timing samples of the entries that parse,
  the five GC gauges, the size-class gauges, the four runtime gauges, \<^verbatim>\<open>go.runtime\<close> and,
  when there are tags of \<^verbatim>\<open>svcinfo\<close>, \<^verbatim>\<open>info\<close>, whatever the entries of the ring are.
  When the GC count of the snapshot is \<open>2 ^ 32 - 1\<close>, the pause loop does not end: the
  tick does not return, and none of the gauges that follow the loop is sent.
\<close>

theorem unparseable_pause_is_skipped:
  "(NumGC (Mem (stats r)) \<noteq> - 1 \<and> i \<le> NumGC (Mem (stats r)) \<and>
    ParseDuration_ns (PauseNs (Mem (stats r)) (unat i mod 256)) = None \<longrightarrow>
      pauseLoop r h i dd =
        Some (dd @ map (\<lambda>t. Timing ''go.mem.pause_ns'' t (elems h (defaultTags r)) f64_one)
                (List.map_filter (\<lambda>k. ParseDuration_ns (PauseNs (Mem (stats r)) (k mod 256)))
                   [Suc (unat i) ..< Suc (unat (NumGC (Mem (stats r))))]))) \<and>
   (NumGC (ReadMemStats smp) \<noteq> - 1 \<and> wf_slice h (defaultTags r) \<longrightarrow>
      (\<exists>h'. let m = ReadMemStats smp; D = elems h (defaultTags r) in
         tick smp r h dd =
           Some (fillStats smp r, h',
             dd @
             [Gauge ''go.mem.total_alloc'' (Float64_of_uint64 (TotalAlloc m)) D f64_one,
              Gauge ''go.mem.alloc'' (Float64_of_uint64 (Alloc m)) D f64_one,
              Gauge ''go.mem.sys'' (Float64_of_uint64 (Sys m)) D f64_one,
              Gauge ''go.mem.lookups'' (Float64_of_uint64 (Lookups m)) D f64_one,
              Gauge ''go.mem.mallocs'' (Float64_of_uint64 (MemStats.Mallocs m)) D f64_one,
              Gauge ''go.mem.frees'' (Float64_of_uint64 (MemStats.Frees m)) D f64_one,
              Gauge ''go.mem.heap_alloc'' (Float64_of_uint64 (HeapAlloc m)) D f64_one,
              Gauge ''go.mem.heap_sys'' (Float64_of_uint64 (HeapSys m)) D f64_one,
              Gauge ''go.mem.heap_idle'' (Float64_of_uint64 (HeapIdle m)) D f64_one,
              Gauge ''go.mem.heap_inuse'' (Float64_of_uint64 (HeapInuse m)) D f64_one,
              Gauge ''go.mem.heap_released'' (Float64_of_uint64 (HeapReleased m)) D f64_one,
              Gauge ''go.mem.heap_objects'' (Float64_of_uint64 (HeapObjects m)) D f64_one,
              Gauge ''go.mem.stack_inuse'' (Float64_of_uint64 (StackInuse m)) D f64_one,
              Gauge ''go.mem.stack_sys'' (Float64_of_uint64 (StackSys m)) D f64_one,
              Gauge ''go.mem.mspan_inuse'' (Float64_of_uint64 (MSpanInuse m)) D f64_one,
              Gauge ''go.mem.mspan_sys'' (Float64_of_uint64 (MSpanSys m)) D f64_one,
              Gauge ''go.mem.mcache_inuse'' (Float64_of_uint64 (MCacheInuse m)) D f64_one,
              Gauge ''go.mem.mcache_sys'' (Float64_of_uint64 (MCacheSys m)) D f64_one,
              Gauge ''go.mem.buck_hash_sys'' (Float64_of_uint64 (BuckHashSys m)) D f64_one,
              Gauge ''go.mem.gc_sys'' (Float64_of_uint64 (GCSys m)) D f64_one,
              Gauge ''go.mem.other_sys'' (Float64_of_uint64 (OtherSys m)) D f64_one,
              Gauge ''go.mem.next_gc'' (Float64_of_uint64 (NextGC m)) D f64_one,
              Gauge ''go.mem.last_gc'' (Float64_of_uint64 (LastGC m)) D f64_one,
              Gauge ''go.mem.pause_total_ns'' (Float64_of_uint64 (PauseTotalNs m)) D f64_one] @
             map (\<lambda>t. Timing ''go.mem.pause_ns'' t D f64_one)
               (List.map_filter (\<lambda>k. ParseDuration_ns (PauseNs m (k mod 256)))
                  [unat (NumGC (Mem (stats r))) ..< Suc (unat (NumGC m))]) @
             [Gauge ''go.mem.num_gc'' (Float64_of_uint32 (NumGC m)) D f64_one,
              Gauge ''go.mem.num_forced_gc'' (Float64_of_uint32 (NumForcedGC m)) D f64_one,
              Gauge ''go.mem.gc_cpu_fraction'' (GCCPUFraction m) D f64_one,
              Gauge ''go.mem.num_forced_gc'' (Float64_of_uint32 (NumForcedGC m)) D f64_one,
              Gauge ''go.mem.num_forced_gc'' (Float64_of_uint32 (NumForcedGC m)) D f64_one] @
             concat (map (\<lambda>b.
               [Gauge ''go.mem.mallocs_by_size'' (Float64_of_uint64 (BySizeEntry.Mallocs b))
                  (D @ [''size:'' @ fmt_d (unat (Size b))]) f64_one,
                Gauge ''go.mem.frees_by_size'' (Float64_of_uint64 (BySizeEntry.Frees b))
                  (D @ [''size:'' @ fmt_d (unat (Size b))]) f64_one])
               (BySize_entries m)) @
             [Gauge ''go.num_cpu'' (Float64_of_int (runtime_NumCPU smp)) D f64_one,
              Gauge ''go.num_cgo_calls'' (Float64_of_int64 (runtime_NumCgoCall smp)) D f64_one,
              Gauge ''go.goroutines'' (Float64_of_int (runtime_NumGoroutine smp)) D f64_one,
              Gauge ''go.max_procs'' (Float64_of_int (runtime_GOMAXPROCS smp)) D f64_one,
              Gauge ''go.runtime'' f64_one (elems h' (runtimeTags r)) f64_one] @
             (if 0 < len (infoTags r)
              then [Gauge ''info'' f64_one (elems h' (infoTags r)) f64_one] else [])))) \<and>
   (NumGC (ReadMemStats smp) = - 1 \<longrightarrow> tick smp r h dd = None)"
proof (intro conjI)
  show "NumGC (Mem (stats r)) \<noteq> - 1 \<and> i \<le> NumGC (Mem (stats r)) \<and>
    ParseDuration_ns (PauseNs (Mem (stats r)) (unat i mod 256)) = None \<longrightarrow>
      pauseLoop r h i dd =
        Some (dd @ map (\<lambda>t. Timing ''go.mem.pause_ns'' t (elems h (defaultTags r)) f64_one)
                (List.map_filter (\<lambda>k. ParseDuration_ns (PauseNs (Mem (stats r)) (k mod 256)))
                   [Suc (unat i) ..< Suc (unat (NumGC (Mem (stats r))))]))"
  proof
    assume a: "NumGC (Mem (stats r)) \<noteq> - 1 \<and> i \<le> NumGC (Mem (stats r)) \<and>
      ParseDuration_ns (PauseNs (Mem (stats r)) (unat i mod 256)) = None"
    then have n: "NumGC (Mem (stats r)) \<noteq> - 1" and le: "i \<le> NumGC (Mem (stats r))"
      and p: "ParseDuration_ns (PauseNs (Mem (stats r)) (unat i mod 256)) = None"
      by simp_all
    have s: "pauseSample r h (unat i) = []"
      using p by (simp add: pauseSample_def)
    have inc: "unat (i + 1) = Suc (unat i)"
      using le n by (rule unat_inc_u32)
    have "pauseLoop r h i dd = pauseLoop r h (i + 1) dd"
      using pauseLoop_step [OF le, of h dd] s by simp
    also have "\<dots> = Some (dd @ concat (map (pauseSample r h)
                 [Suc (unat i) ..< Suc (unat (NumGC (Mem (stats r))))]))"
      unfolding pauseLoop_eq [OF n] inc ..
    finally show "pauseLoop r h i dd =
        Some (dd @ map (\<lambda>t. Timing ''go.mem.pause_ns'' t (elems h (defaultTags r)) f64_one)
                (List.map_filter (\<lambda>k. ParseDuration_ns (PauseNs (Mem (stats r)) (k mod 256)))
                   [Suc (unat i) ..< Suc (unat (NumGC (Mem (stats r))))]))"
      unfolding pause_concat_map_filter .
  qed
next
  show "NumGC (ReadMemStats smp) = - 1 \<longrightarrow> tick smp r h dd = None"
    by (simp add: tick_diverges)
next
  define m where "m = ReadMemStats smp"
  define D where "D = elems h (defaultTags r)"
  let ?r = "fillStats smp r"
  have calls: "tick_calls smp r h =
          [Gauge ''go.mem.total_alloc'' (Float64_of_uint64 (TotalAlloc m)) D f64_one,
           Gauge ''go.mem.alloc'' (Float64_of_uint64 (Alloc m)) D f64_one,
           Gauge ''go.mem.sys'' (Float64_of_uint64 (Sys m)) D f64_one,
           Gauge ''go.mem.lookups'' (Float64_of_uint64 (Lookups m)) D f64_one,
           Gauge ''go.mem.mallocs'' (Float64_of_uint64 (MemStats.Mallocs m)) D f64_one,
           Gauge ''go.mem.frees'' (Float64_of_uint64 (MemStats.Frees m)) D f64_one,
           Gauge ''go.mem.heap_alloc'' (Float64_of_uint64 (HeapAlloc m)) D f64_one,
           Gauge ''go.mem.heap_sys'' (Float64_of_uint64 (HeapSys m)) D f64_one,
           Gauge ''go.mem.heap_idle'' (Float64_of_uint64 (HeapIdle m)) D f64_one,
           Gauge ''go.mem.heap_inuse'' (Float64_of_uint64 (HeapInuse m)) D f64_one,
           Gauge ''go.mem.heap_released'' (Float64_of_uint64 (HeapReleased m)) D f64_one,
           Gauge ''go.mem.heap_objects'' (Float64_of_uint64 (HeapObjects m)) D f64_one,
           Gauge ''go.mem.stack_inuse'' (Float64_of_uint64 (StackInuse m)) D f64_one,
           Gauge ''go.mem.stack_sys'' (Float64_of_uint64 (StackSys m)) D f64_one,
           Gauge ''go.mem.mspan_inuse'' (Float64_of_uint64 (MSpanInuse m)) D f64_one,
           Gauge ''go.mem.mspan_sys'' (Float64_of_uint64 (MSpanSys m)) D f64_one,
           Gauge ''go.mem.mcache_inuse'' (Float64_of_uint64 (MCacheInuse m)) D f64_one,
           Gauge ''go.mem.mcache_sys'' (Float64_of_uint64 (MCacheSys m)) D f64_one,
           Gauge ''go.mem.buck_hash_sys'' (Float64_of_uint64 (BuckHashSys m)) D f64_one,
           Gauge ''go.mem.gc_sys'' (Float64_of_uint64 (GCSys m)) D f64_one,
           Gauge ''go.mem.other_sys'' (Float64_of_uint64 (OtherSys m)) D f64_one,
           Gauge ''go.mem.next_gc'' (Float64_of_uint64 (NextGC m)) D f64_one,
           Gauge ''go.mem.last_gc'' (Float64_of_uint64 (LastGC m)) D f64_one,
           Gauge ''go.mem.pause_total_ns'' (Float64_of_uint64 (PauseTotalNs m)) D f64_one] @
          map (\<lambda>t. Timing ''go.mem.pause_ns'' t D f64_one)
            (List.map_filter (\<lambda>k. ParseDuration_ns (PauseNs m (k mod 256)))
               [unat (NumGC (Mem (stats r))) ..< Suc (unat (NumGC m))]) @
          [Gauge ''go.mem.num_gc'' (Float64_of_uint32 (NumGC m)) D f64_one,
           Gauge ''go.mem.num_forced_gc'' (Float64_of_uint32 (NumForcedGC m)) D f64_one,
           Gauge ''go.mem.gc_cpu_fraction'' (GCCPUFraction m) D f64_one,
           Gauge ''go.mem.num_forced_gc'' (Float64_of_uint32 (NumForcedGC m)) D f64_one,
           Gauge ''go.mem.num_forced_gc'' (Float64_of_uint32 (NumForcedGC m)) D f64_one] @
          concat (map (\<lambda>b.
            [Gauge ''go.mem.mallocs_by_size'' (Float64_of_uint64 (BySizeEntry.Mallocs b))
               (D @ [''size:'' @ fmt_d (unat (Size b))]) f64_one,
             Gauge ''go.mem.frees_by_size'' (Float64_of_uint64 (BySizeEntry.Frees b))
               (D @ [''size:'' @ fmt_d (unat (Size b))]) f64_one])
            (BySize_entries m)) @
          [Gauge ''go.num_cpu'' (Float64_of_int (runtime_NumCPU smp)) D f64_one,
           Gauge ''go.num_cgo_calls'' (Float64_of_int64 (runtime_NumCgoCall smp)) D f64_one,
           Gauge ''go.goroutines'' (Float64_of_int (runtime_NumGoroutine smp)) D f64_one,
           Gauge ''go.max_procs'' (Float64_of_int (runtime_GOMAXPROCS smp)) D f64_one,
           Gauge ''go.runtime'' f64_one (elems (tick_heap smp r h) (runtimeTags r)) f64_one] @
          (if 0 < len (infoTags r)
           then [Gauge ''info'' f64_one (elems (tick_heap smp r h) (infoTags r)) f64_one] else [])"
    if w: "wf_slice h (defaultTags ?r)"
  proof -
    have d: "elems (tick_heap smp r h) (defaultTags r) = D"
      unfolding tick_heap_def D_def using bySizeLoop_wf(3) [OF w] by (simp add: fillStats_simps)
    have c1: "exportMemStats_fields ?r h [] =
          [Gauge ''go.mem.total_alloc'' (Float64_of_uint64 (TotalAlloc m)) D f64_one,
           Gauge ''go.mem.alloc'' (Float64_of_uint64 (Alloc m)) D f64_one,
           Gauge ''go.mem.sys'' (Float64_of_uint64 (Sys m)) D f64_one,
           Gauge ''go.mem.lookups'' (Float64_of_uint64 (Lookups m)) D f64_one,
           Gauge ''go.mem.mallocs'' (Float64_of_uint64 (MemStats.Mallocs m)) D f64_one,
           Gauge ''go.mem.frees'' (Float64_of_uint64 (MemStats.Frees m)) D f64_one,
           Gauge ''go.mem.heap_alloc'' (Float64_of_uint64 (HeapAlloc m)) D f64_one,
           Gauge ''go.mem.heap_sys'' (Float64_of_uint64 (HeapSys m)) D f64_one,
           Gauge ''go.mem.heap_idle'' (Float64_of_uint64 (HeapIdle m)) D f64_one,
           Gauge ''go.mem.heap_inuse'' (Float64_of_uint64 (HeapInuse m)) D f64_one,
           Gauge ''go.mem.heap_released'' (Float64_of_uint64 (HeapReleased m)) D f64_one,
           Gauge ''go.mem.heap_objects'' (Float64_of_uint64 (HeapObjects m)) D f64_one,
           Gauge ''go.mem.stack_inuse'' (Float64_of_uint64 (StackInuse m)) D f64_one,
           Gauge ''go.mem.stack_sys'' (Float64_of_uint64 (StackSys m)) D f64_one,
           Gauge ''go.mem.mspan_inuse'' (Float64_of_uint64 (MSpanInuse m)) D f64_one,
           Gauge ''go.mem.mspan_sys'' (Float64_of_uint64 (MSpanSys m)) D f64_one,
           Gauge ''go.mem.mcache_inuse'' (Float64_of_uint64 (MCacheInuse m)) D f64_one,
           Gauge ''go.mem.mcache_sys'' (Float64_of_uint64 (MCacheSys m)) D f64_one,
           Gauge ''go.mem.buck_hash_sys'' (Float64_of_uint64 (BuckHashSys m)) D f64_one,
           Gauge ''go.mem.gc_sys'' (Float64_of_uint64 (GCSys m)) D f64_one,
           Gauge ''go.mem.other_sys'' (Float64_of_uint64 (OtherSys m)) D f64_one,
           Gauge ''go.mem.next_gc'' (Float64_of_uint64 (NextGC m)) D f64_one,
           Gauge ''go.mem.last_gc'' (Float64_of_uint64 (LastGC m)) D f64_one,
           Gauge ''go.mem.pause_total_ns'' (Float64_of_uint64 (PauseTotalNs m)) D f64_one]"
      by (simp add: exportMemStats_fields_def Let_def fillStats_simps m_def D_def)
    have c2: "concat (map (pauseSample ?r h)
                [unat (NumGC (Mem (stats r))) ..< Suc (unat (NumGC (ReadMemStats smp)))]) =
          map (\<lambda>t. Timing ''go.mem.pause_ns'' t D f64_one)
            (List.map_filter (\<lambda>k. ParseDuration_ns (PauseNs m (k mod 256)))
               [unat (NumGC (Mem (stats r))) ..< Suc (unat (NumGC m))])"
      unfolding pause_concat_map_filter fillStats_simps m_def D_def ..
    have c3: "exportMemStats_gc ?r h [] =
          [Gauge ''go.mem.num_gc'' (Float64_of_uint32 (NumGC m)) D f64_one,
           Gauge ''go.mem.num_forced_gc'' (Float64_of_uint32 (NumForcedGC m)) D f64_one,
           Gauge ''go.mem.gc_cpu_fraction'' (GCCPUFraction m) D f64_one,
           Gauge ''go.mem.num_forced_gc'' (Float64_of_uint32 (NumForcedGC m)) D f64_one,
           Gauge ''go.mem.num_forced_gc'' (Float64_of_uint32 (NumForcedGC m)) D f64_one]"
      by (simp add: exportMemStats_gc_def Let_def fillStats_simps m_def D_def)
    have "bySizeGauges (elems h (defaultTags ?r)) = (\<lambda>b.
            [Gauge ''go.mem.mallocs_by_size'' (Float64_of_uint64 (BySizeEntry.Mallocs b))
               (D @ [''size:'' @ fmt_d (unat (Size b))]) f64_one,
             Gauge ''go.mem.frees_by_size'' (Float64_of_uint64 (BySizeEntry.Frees b))
               (D @ [''size:'' @ fmt_d (unat (Size b))]) f64_one])"
      by (rule ext) (simp add: bySizeGauges_def fillStats_simps D_def)
    then have c4: "snd (bySizeLoop ?r (BySize_entries (ReadMemStats smp)) h []) =
          concat (map (\<lambda>b.
            [Gauge ''go.mem.mallocs_by_size'' (Float64_of_uint64 (BySizeEntry.Mallocs b))
               (D @ [''size:'' @ fmt_d (unat (Size b))]) f64_one,
             Gauge ''go.mem.frees_by_size'' (Float64_of_uint64 (BySizeEntry.Frees b))
               (D @ [''size:'' @ fmt_d (unat (Size b))]) f64_one])
            (BySize_entries m))"
      unfolding bySizeLoop_wf(1) [OF w] m_def by (simp only:)
    have c5: "exportRuntimeStats ?r (tick_heap smp r h) [] =
          [Gauge ''go.num_cpu'' (Float64_of_int (runtime_NumCPU smp)) D f64_one,
           Gauge ''go.num_cgo_calls'' (Float64_of_int64 (runtime_NumCgoCall smp)) D f64_one,
           Gauge ''go.goroutines'' (Float64_of_int (runtime_NumGoroutine smp)) D f64_one,
           Gauge ''go.max_procs'' (Float64_of_int (runtime_GOMAXPROCS smp)) D f64_one]"
      by (simp add: exportRuntimeStats_def fillStats_simps d) (simp add: fillStats_def Let_def)
    have c6: "exportRuntimeInfo ?r (tick_heap smp r h) [] =
          [Gauge ''go.runtime'' f64_one (elems (tick_heap smp r h) (runtimeTags r)) f64_one]"
      by (simp add: exportRuntimeInfo_def fillStats_simps)
    have c7: "exportServiceInfo ?r (tick_heap smp r h) [] =
          (if 0 < len (infoTags r)
           then [Gauge ''info'' f64_one (elems (tick_heap smp r h) (infoTags r)) f64_one] else [])"
      by (simp add: exportServiceInfo_def fillStats_simps)
    show ?thesis
      unfolding tick_calls_def c1 c2 c3 c4 c5 c6 c7 by (simp only: append_Cons append_Nil)
  qed
  show "NumGC (ReadMemStats smp) \<noteq> - 1 \<and> wf_slice h (defaultTags r) \<longrightarrow>
      (\<exists>h'. let m = ReadMemStats smp; D = elems h (defaultTags r) in
         tick smp r h dd =
           Some (fillStats smp r, h',
             dd @
             [Gauge ''go.mem.total_alloc'' (Float64_of_uint64 (TotalAlloc m)) D f64_one,
              Gauge ''go.mem.alloc'' (Float64_of_uint64 (Alloc m)) D f64_one,
              Gauge ''go.mem.sys'' (Float64_of_uint64 (Sys m)) D f64_one,
              Gauge ''go.mem.lookups'' (Float64_of_uint64 (Lookups m)) D f64_one,
              Gauge ''go.mem.mallocs'' (Float64_of_uint64 (MemStats.Mallocs m)) D f64_one,
              Gauge ''go.mem.frees'' (Float64_of_uint64 (MemStats.Frees m)) D f64_one,
              Gauge ''go.mem.heap_alloc'' (Float64_of_uint64 (HeapAlloc m)) D f64_one,
              Gauge ''go.mem.heap_sys'' (Float64_of_uint64 (HeapSys m)) D f64_one,
              Gauge ''go.mem.heap_idle'' (Float64_of_uint64 (HeapIdle m)) D f64_one,
              Gauge ''go.mem.heap_inuse'' (Float64_of_uint64 (HeapInuse m)) D f64_one,
              Gauge ''go.mem.heap_released'' (Float64_of_uint64 (HeapReleased m)) D f64_one,
              Gauge ''go.mem.heap_objects'' (Float64_of_uint64 (HeapObjects m)) D f64_one,
              Gauge ''go.mem.stack_inuse'' (Float64_of_uint64 (StackInuse m)) D f64_one,
              Gauge ''go.mem.stack_sys'' (Float64_of_uint64 (StackSys m)) D f64_one,
              Gauge ''go.mem.mspan_inuse'' (Float64_of_uint64 (MSpanInuse m)) D f64_one,
              Gauge ''go.mem.mspan_sys'' (Float64_of_uint64 (MSpanSys m)) D f64_one,
              Gauge ''go.mem.mcache_inuse'' (Float64_of_uint64 (MCacheInuse m)) D f64_one,
              Gauge ''go.mem.mcache_sys'' (Float64_of_uint64 (MCacheSys m)) D f64_one,
              Gauge ''go.mem.buck_hash_sys'' (Float64_of_uint64 (BuckHashSys m)) D f64_one,
              Gauge ''go.mem.gc_sys'' (Float64_of_uint64 (GCSys m)) D f64_one,
              Gauge ''go.mem.other_sys'' (Float64_of_uint64 (OtherSys m)) D f64_one,
              Gauge ''go.mem.next_gc'' (Float64_of_uint64 (NextGC m)) D f64_one,
              Gauge ''go.mem.last_gc'' (Float64_of_uint64 (LastGC m)) D f64_one,
              Gauge ''go.mem.pause_total_ns'' (Float64_of_uint64 (PauseTotalNs m)) D f64_one] @
             map (\<lambda>t. Timing ''go.mem.pause_ns'' t D f64_one)
               (List.map_filter (\<lambda>k. ParseDuration_ns (PauseNs m (k mod 256)))
                  [unat (NumGC (Mem (stats r))) ..< Suc (unat (NumGC m))]) @
             [Gauge ''go.mem.num_gc'' (Float64_of_uint32 (NumGC m)) D f64_one,
              Gauge ''go.mem.num_forced_gc'' (Float64_of_uint32 (NumForcedGC m)) D f64_one,
              Gauge ''go.mem.gc_cpu_fraction'' (GCCPUFraction m) D f64_one,
              Gauge ''go.mem.num_forced_gc'' (Float64_of_uint32 (NumForcedGC m)) D f64_one,
              Gauge ''go.mem.num_forced_gc'' (Float64_of_uint32 (NumForcedGC m)) D f64_one] @
             concat (map (\<lambda>b.
               [Gauge ''go.mem.mallocs_by_size'' (Float64_of_uint64 (BySizeEntry.Mallocs b))
                  (D @ [''size:'' @ fmt_d (unat (Size b))]) f64_one,
                Gauge ''go.mem.frees_by_size'' (Float64_of_uint64 (BySizeEntry.Frees b))
                  (D @ [''size:'' @ fmt_d (unat (Size b))]) f64_one])
               (BySize_entries m)) @
             [Gauge ''go.num_cpu'' (Float64_of_int (runtime_NumCPU smp)) D f64_one,
              Gauge ''go.num_cgo_calls'' (Float64_of_int64 (runtime_NumCgoCall smp)) D f64_one,
              Gauge ''go.goroutines'' (Float64_of_int (runtime_NumGoroutine smp)) D f64_one,
              Gauge ''go.max_procs'' (Float64_of_int (runtime_GOMAXPROCS smp)) D f64_one,
              Gauge ''go.runtime'' f64_one (elems h' (runtimeTags r)) f64_one] @
             (if 0 < len (infoTags r)
              then [Gauge ''info'' f64_one (elems h' (infoTags r)) f64_one] else [])))"
  proof
    assume a: "NumGC (ReadMemStats smp) \<noteq> - 1 \<and> wf_slice h (defaultTags r)"
    then have n: "NumGC (ReadMemStats smp) \<noteq> - 1" and w: "wf_slice h (defaultTags ?r)"
      by (simp_all add: fillStats_simps)
    have t: "tick smp r h dd = Some (?r, tick_heap smp r h, dd @ tick_calls smp r h)"
      by (rule tick_eq [OF n])
    show "\<exists>h'. let m = ReadMemStats smp; D = elems h (defaultTags r) in
         tick smp r h dd =
           Some (fillStats smp r, h',
             dd @
             [Gauge ''go.mem.total_alloc'' (Float64_of_uint64 (TotalAlloc m)) D f64_one,
              Gauge ''go.mem.alloc'' (Float64_of_uint64 (Alloc m)) D f64_one,
              Gauge ''go.mem.sys'' (Float64_of_uint64 (Sys m)) D f64_one,
              Gauge ''go.mem.lookups'' (Float64_of_uint64 (Lookups m)) D f64_one,
              Gauge ''go.mem.mallocs'' (Float64_of_uint64 (MemStats.Mallocs m)) D f64_one,
              Gauge ''go.mem.frees'' (Float64_of_uint64 (MemStats.Frees m)) D f64_one,
              Gauge ''go.mem.heap_alloc'' (Float64_of_uint64 (HeapAlloc m)) D f64_one,
              Gauge ''go.mem.heap_sys'' (Float64_of_uint64 (HeapSys m)) D f64_one,
              Gauge ''go.mem.heap_idle'' (Float64_of_uint64 (HeapIdle m)) D f64_one,
              Gauge ''go.mem.heap_inuse'' (Float64_of_uint64 (HeapInuse m)) D f64_one,
              Gauge ''go.mem.heap_released'' (Float64_of_uint64 (HeapReleased m)) D f64_one,
              Gauge ''go.mem.heap_objects'' (Float64_of_uint64 (HeapObjects m)) D f64_one,
              Gauge ''go.mem.stack_inuse'' (Float64_of_uint64 (StackInuse m)) D f64_one,
              Gauge ''go.mem.stack_sys'' (Float64_of_uint64 (StackSys m)) D f64_one,
              Gauge ''go.mem.mspan_inuse'' (Float64_of_uint64 (MSpanInuse m)) D f64_one,
              Gauge ''go.mem.mspan_sys'' (Float64_of_uint64 (MSpanSys m)) D f64_one,
              Gauge ''go.mem.mcache_inuse'' (Float64_of_uint64 (MCacheInuse m)) D f64_one,
              Gauge ''go.mem.mcache_sys'' (Float64_of_uint64 (MCacheSys m)) D f64_one,
              Gauge ''go.mem.buck_hash_sys'' (Float64_of_uint64 (BuckHashSys m)) D f64_one,
              Gauge ''go.mem.gc_sys'' (Float64_of_uint64 (GCSys m)) D f64_one,
              Gauge ''go.mem.other_sys'' (Float64_of_uint64 (OtherSys m)) D f64_one,
              Gauge ''go.mem.next_gc'' (Float64_of_uint64 (NextGC m)) D f64_one,
              Gauge ''go.mem.last_gc'' (Float64_of_uint64 (LastGC m)) D f64_one,
              Gauge ''go.mem.pause_total_ns'' (Float64_of_uint64 (PauseTotalNs m)) D f64_one] @
             map (\<lambda>t. Timing ''go.mem.pause_ns'' t D f64_one)
               (List.map_filter (\<lambda>k. ParseDuration_ns (PauseNs m (k mod 256)))
                  [unat (NumGC (Mem (stats r))) ..< Suc (unat (NumGC m))]) @
             [Gauge ''go.mem.num_gc'' (Float64_of_uint32 (NumGC m)) D f64_one,
              Gauge ''go.mem.num_forced_gc'' (Float64_of_uint32 (NumForcedGC m)) D f64_one,
              Gauge ''go.mem.gc_cpu_fraction'' (GCCPUFraction m) D f64_one,
              Gauge ''go.mem.num_forced_gc'' (Float64_of_uint32 (NumForcedGC m)) D f64_one,
              Gauge ''go.mem.num_forced_gc'' (Float64_of_uint32 (NumForcedGC m)) D f64_one] @
             concat (map (\<lambda>b.
               [Gauge ''go.mem.mallocs_by_size'' (Float64_of_uint64 (BySizeEntry.Mallocs b))
                  (D @ [''size:'' @ fmt_d (unat (Size b))]) f64_one,
                Gauge ''go.mem.frees_by_size'' (Float64_of_uint64 (BySizeEntry.Frees b))
                  (D @ [''size:'' @ fmt_d (unat (Size b))]) f64_one])
               (BySize_entries m)) @
             [Gauge ''go.num_cpu'' (Float64_of_int (runtime_NumCPU smp)) D f64_one,
              Gauge ''go.num_cgo_calls'' (Float64_of_int64 (runtime_NumCgoCall smp)) D f64_one,
              Gauge ''go.goroutines'' (Float64_of_int (runtime_NumGoroutine smp)) D f64_one,
              Gauge ''go.max_procs'' (Float64_of_int (runtime_GOMAXPROCS smp)) D f64_one,
              Gauge ''go.runtime'' f64_one (elems h' (runtimeTags r)) f64_one] @
             (if 0 < len (infoTags r)
              then [Gauge ''info'' f64_one (elems h' (infoTags r)) f64_one] else []))"
      unfolding Let_def t calls [OF w] m_def D_def by (intro exI [of _ "tick_heap smp r h"]) (rule refl)
  qed
qed

lemma New_example_tags:
  "tags_inv [] [''commit:abc123'', ''version:1.2''] ''version:go1.11'' ''arch:amd64'' ''os:linux''
     (heap (New [] example_env [] [])) (rep (New [] example_env [] []))"
  "wf_slice (heap (New [] example_env [] [])) (defaultTags (rep (New [] example_env [] [])))"
  "elems (heap (New [] example_env [] [])) (defaultTags (rep (New [] example_env [] []))) = []"
  "len (infoTags (rep (New [] example_env [] []))) = 2"
proof -
  have w0: "wf_slice [] (defaultTags (rep (New [] example_env [] [])))"
    unfolding New_no_options by (rule wf_empty_slice)
  note b = New_tags_inv [OF w0]
  from b(1) show i: "tags_inv [] [''commit:abc123'', ''version:1.2''] ''version:go1.11''
      ''arch:amd64'' ''os:linux'' (heap (New [] example_env [] [])) (rep (New [] example_env [] []))"
    unfolding New_no_options elems_empty_slice example_env_tags by simp
  from i show "wf_slice (heap (New [] example_env [] [])) (defaultTags (rep (New [] example_env [] [])))"
    by (simp add: tags_inv_def)
  from i show "elems (heap (New [] example_env [] [])) (defaultTags (rep (New [] example_env [] []))) = []"
    by (simp add: tags_inv_def)
  from b(4) show "len (infoTags (rep (New [] example_env [] []))) = 2"
    unfolding example_env_tags by simp
qed

theorem unparseable_pause_is_skipped_witness:
  "NumGC (Mem (stats (fillStats (example_sample 3 (\<lambda>i. if i = 1 then 2 ^ 63 else 5) example_classes 1000)
       (rep (New [] example_env [] []))))) \<noteq> - 1 \<and>
   (1::u32) \<le> NumGC (Mem (stats (fillStats (example_sample 3 (\<lambda>i. if i = 1 then 2 ^ 63 else 5) example_classes 1000)
       (rep (New [] example_env [] []))))) \<and>
   ParseDuration_ns (2 ^ 63) = None \<and>
   pauseLoop (fillStats (example_sample 3 (\<lambda>i. if i = 1 then 2 ^ 63 else 5) example_classes 1000)
       (rep (New [] example_env [] []))) (heap (New [] example_env [] [])) 1 [] =
     Some [Timing ''go.mem.pause_ns'' 5 [] f64_one, Timing ''go.mem.pause_ns'' 5 [] f64_one] \<and>
   NumGC (ReadMemStats (example_sample 3 (\<lambda>i. if i = 1 then 2 ^ 63 else 5) example_classes 1000)) \<noteq> - 1 \<and>
   wf_slice (heap (New [] example_env [] [])) (defaultTags (rep (New [] example_env [] []))) \<and>
   (case tick (example_sample 3 (\<lambda>i. if i = 1 then 2 ^ 63 else 5) example_classes 1000)
           (rep (New [] example_env [] [])) (heap (New [] example_env [] [])) [] of
      None \<Rightarrow> False
    | Some (r', h', out) \<Rightarrow>
        length out = 160 \<and>
        take 3 (drop 24 out) =
          [Timing ''go.mem.pause_ns'' 5 [] f64_one, Timing ''go.mem.pause_ns'' 5 [] f64_one,
           Timing ''go.mem.pause_ns'' 5 [] f64_one] \<and>
        drop 154 out =
          [Gauge ''go.num_cpu'' (Float64_of_int 4) [] f64_one,
           Gauge ''go.num_cgo_calls'' (Float64_of_int64 0) [] f64_one,
           Gauge ''go.goroutines'' (Float64_of_int 7) [] f64_one,
           Gauge ''go.max_procs'' (Float64_of_int 4) [] f64_one,
           Gauge ''go.runtime'' f64_one [''version:go1.11'', ''arch:amd64'', ''os:linux''] f64_one,
           Gauge ''info'' f64_one [''commit:abc123'', ''version:1.2''] f64_one]) \<and>
   NumGC (ReadMemStats (example_sample (- 1) (\<lambda>i. if i = 1 then 2 ^ 63 else 5) example_classes 1000)) = - 1 \<and>
   tick (example_sample (- 1) (\<lambda>i. if i = 1 then 2 ^ 63 else 5) example_classes 1000)
     (rep (New [] example_env [] [])) (heap (New [] example_env [] [])) [] = None"
proof -
  let ?smp = "example_sample 3 (\<lambda>i. if i = 1 then 2 ^ 63 else 5) example_classes 1000"
  let ?bad = "example_sample (- 1) (\<lambda>i. if i = 1 then 2 ^ 63 else 5) example_classes 1000"
  let ?q = "rep (New [] example_env [] [])"
  let ?h = "heap (New [] example_env [] [])"
  let ?r = "fillStats ?smp ?q"
  have n1: "NumGC (Mem (stats ?r)) \<noteq> - 1" and le: "(1::u32) \<le> NumGC (Mem (stats ?r))"
    by (simp_all add: fillStats_simps example_sample_simps)
  have p: "ParseDuration_ns (2 ^ 63) = None"
    by (simp add: ParseDuration_ns_def)
  have p': "ParseDuration_ns (PauseNs (Mem (stats ?r)) (unat (1::u32) mod 256)) = None"
    by (simp add: fillStats_simps example_sample_simps ParseDuration_ns_def)
  have n: "NumGC (ReadMemStats ?smp) \<noteq> - 1" and b: "NumGC (ReadMemStats ?bad) = - 1"
    by (simp_all add: example_sample_simps)
  note w = New_example_tags(2)
  have d: "elems ?h (defaultTags ?q) = []" "elems ?h (defaultTags ?r) = []"
    by (simp_all add: New_example_tags fillStats_simps)
  have ks1: "[Suc (unat (1::u32)) ..< Suc (unat (NumGC (Mem (stats ?r))))] = [2, 3]"
    by (simp add: fillStats_simps example_sample_simps upt_conv_Cons)
  have ks: "[unat (NumGC (Mem (stats ?q))) ..< Suc (unat (NumGC (ReadMemStats ?smp)))] = [0, 1, 2, 3]"
    by (simp add: example_sample_simps New_no_options MemStats_zero_def upt_conv_Cons)
  from unparseable_pause_is_skipped [where r = ?r and i = 1 and h = ?h and dd = "[]"] n1 le p'
  have "pauseLoop ?r ?h 1 [] =
        Some ([] @ map (\<lambda>t. Timing ''go.mem.pause_ns'' t (elems ?h (defaultTags ?r)) f64_one)
                (List.map_filter (\<lambda>k. ParseDuration_ns (PauseNs (Mem (stats ?r)) (k mod 256)))
                   [Suc (unat (1::u32)) ..< Suc (unat (NumGC (Mem (stats ?r))))]))"
    by blast
  then have a: "pauseLoop ?r ?h 1 [] =
     Some [Timing ''go.mem.pause_ns'' 5 [] f64_one, Timing ''go.mem.pause_ns'' 5 [] f64_one]"
    unfolding ks1 d
    by (simp add: fillStats_simps example_sample_simps ParseDuration_ns_def List.map_filter_simps)
  note i = tick_heap_tags_inv [OF New_example_tags(1), of ?smp]
  have e: "tick ?smp ?q ?h [] = Some (?r, tick_heap ?smp ?q ?h, [] @ tick_calls ?smp ?q ?h)"
    by (rule tick_eq [OF n])
  from unparseable_pause_is_skipped [where r = ?q and h = ?h and dd = "[]" and smp = ?smp] n w
  obtain h' where t: "let m = ReadMemStats ?smp; D = elems ?h (defaultTags ?q) in
         tick ?smp ?q ?h [] =
           Some (?r, h',
             [] @
             [Gauge ''go.mem.total_alloc'' (Float64_of_uint64 (TotalAlloc m)) D f64_one,
              Gauge ''go.mem.alloc'' (Float64_of_uint64 (Alloc m)) D f64_one,
              Gauge ''go.mem.sys'' (Float64_of_uint64 (Sys m)) D f64_one,
              Gauge ''go.mem.lookups'' (Float64_of_uint64 (Lookups m)) D f64_one,
              Gauge ''go.mem.mallocs'' (Float64_of_uint64 (MemStats.Mallocs m)) D f64_one,
              Gauge ''go.mem.frees'' (Float64_of_uint64 (MemStats.Frees m)) D f64_one,
              Gauge ''go.mem.heap_alloc'' (Float64_of_uint64 (HeapAlloc m)) D f64_one,
              Gauge ''go.mem.heap_sys'' (Float64_of_uint64 (HeapSys m)) D f64_one,
              Gauge ''go.mem.heap_idle'' (Float64_of_uint64 (HeapIdle m)) D f64_one,
              Gauge ''go.mem.heap_inuse'' (Float64_of_uint64 (HeapInuse m)) D f64_one,
              Gauge ''go.mem.heap_released'' (Float64_of_uint64 (HeapReleased m)) D f64_one,
              Gauge ''go.mem.heap_objects'' (Float64_of_uint64 (HeapObjects m)) D f64_one,
              Gauge ''go.mem.stack_inuse'' (Float64_of_uint64 (StackInuse m)) D f64_one,
              Gauge ''go.mem.stack_sys'' (Float64_of_uint64 (StackSys m)) D f64_one,
              Gauge ''go.mem.mspan_inuse'' (Float64_of_uint64 (MSpanInuse m)) D f64_one,
              Gauge ''go.mem.mspan_sys'' (Float64_of_uint64 (MSpanSys m)) D f64_one,
              Gauge ''go.mem.mcache_inuse'' (Float64_of_uint64 (MCacheInuse m)) D f64_one,
              Gauge ''go.mem.mcache_sys'' (Float64_of_uint64 (MCacheSys m)) D f64_one,
              Gauge ''go.mem.buck_hash_sys'' (Float64_of_uint64 (BuckHashSys m)) D f64_one,
              Gauge ''go.mem.gc_sys'' (Float64_of_uint64 (GCSys m)) D f64_one,
              Gauge ''go.mem.other_sys'' (Float64_of_uint64 (OtherSys m)) D f64_one,
              Gauge ''go.mem.next_gc'' (Float64_of_uint64 (NextGC m)) D f64_one,
              Gauge ''go.mem.last_gc'' (Float64_of_uint64 (LastGC m)) D f64_one,
              Gauge ''go.mem.pause_total_ns'' (Float64_of_uint64 (PauseTotalNs m)) D f64_one] @
             map (\<lambda>t. Timing ''go.mem.pause_ns'' t D f64_one)
               (List.map_filter (\<lambda>k. ParseDuration_ns (PauseNs m (k mod 256)))
                  [unat (NumGC (Mem (stats ?q))) ..< Suc (unat (NumGC m))]) @
             [Gauge ''go.mem.num_gc'' (Float64_of_uint32 (NumGC m)) D f64_one,
              Gauge ''go.mem.num_forced_gc'' (Float64_of_uint32 (NumForcedGC m)) D f64_one,
              Gauge ''go.mem.gc_cpu_fraction'' (GCCPUFraction m) D f64_one,
              Gauge ''go.mem.num_forced_gc'' (Float64_of_uint32 (NumForcedGC m)) D f64_one,
              Gauge ''go.mem.num_forced_gc'' (Float64_of_uint32 (NumForcedGC m)) D f64_one] @
             concat (map (\<lambda>b.
               [Gauge ''go.mem.mallocs_by_size'' (Float64_of_uint64 (BySizeEntry.Mallocs b))
                  (D @ [''size:'' @ fmt_d (unat (Size b))]) f64_one,
                Gauge ''go.mem.frees_by_size'' (Float64_of_uint64 (BySizeEntry.Frees b))
                  (D @ [''size:'' @ fmt_d (unat (Size b))]) f64_one])
               (BySize_entries m)) @
             [Gauge ''go.num_cpu'' (Float64_of_int (runtime_NumCPU ?smp)) D f64_one,
              Gauge ''go.num_cgo_calls'' (Float64_of_int64 (runtime_NumCgoCall ?smp)) D f64_one,
              Gauge ''go.goroutines'' (Float64_of_int (runtime_NumGoroutine ?smp)) D f64_one,
              Gauge ''go.max_procs'' (Float64_of_int (runtime_GOMAXPROCS ?smp)) D f64_one,
              Gauge ''go.runtime'' f64_one (elems h' (runtimeTags ?q)) f64_one] @
             (if 0 < len (infoTags ?q)
              then [Gauge ''info'' f64_one (elems h' (infoTags ?q)) f64_one] else []))"
    by blast
  from t e have h': "h' = tick_heap ?smp ?q ?h"
    by (simp add: Let_def)
  have rt: "elems h' (runtimeTags ?q) = [''version:go1.11'', ''arch:amd64'', ''os:linux'']"
    unfolding h' i(4) by (simp add: New_no_options empty_slice_def)
  have it: "elems h' (infoTags ?q) = [''commit:abc123'', ''version:1.2'']"
    unfolding h' i(3) ..
  have mf: "List.map_filter (\<lambda>k. ParseDuration_ns (PauseNs (ReadMemStats ?smp) (k mod 256)))
              [0, 1, 2, 3] = [5, 5, 5]"
    by (simp add: example_sample_simps ParseDuration_ns_def List.map_filter_simps)
  have rs: "runtime_NumCPU ?smp = 4" "runtime_NumCgoCall ?smp = 0" "runtime_NumGoroutine ?smp = 7"
    "runtime_GOMAXPROCS ?smp = 4"
    by (simp_all add: example_sample_def)
  from t have "case tick ?smp ?q ?h [] of
      None \<Rightarrow> False
    | Some (r', h', out) \<Rightarrow>
        length out = 160 \<and>
        take 3 (drop 24 out) =
          [Timing ''go.mem.pause_ns'' 5 [] f64_one, Timing ''go.mem.pause_ns'' 5 [] f64_one,
           Timing ''go.mem.pause_ns'' 5 [] f64_one] \<and>
        drop 154 out =
          [Gauge ''go.num_cpu'' (Float64_of_int 4) [] f64_one,
           Gauge ''go.num_cgo_calls'' (Float64_of_int64 0) [] f64_one,
           Gauge ''go.goroutines'' (Float64_of_int 7) [] f64_one,
           Gauge ''go.max_procs'' (Float64_of_int 4) [] f64_one,
           Gauge ''go.runtime'' f64_one [''version:go1.11'', ''arch:amd64'', ''os:linux''] f64_one,
           Gauge ''info'' f64_one [''commit:abc123'', ''version:1.2''] f64_one]"
    unfolding Let_def ks mf rt it d rs New_example_tags(4)
    by (simp add: length_concat_pairs BySize_entries_simps)
  moreover from unparseable_pause_is_skipped [where r = ?q and h = ?h and dd = "[]" and smp = ?bad] b
  have "tick ?bad ?q ?h [] = None"
    by blast
  ultimately show ?thesis
    using n1 le p a n w b by (intro conjI)
qed

subsection \<open>How often each memory gauge is sent\<close>

lemma gauges_named_append:
  "gauges_named n (xs @ ys) = gauges_named n xs @ gauges_named n ys"
  by (simp add: gauges_named_def)

lemma gauges_named_pauseSample:
  "gauges_named n (concat (map (pauseSample r h) ks)) = []"
  by (induction ks) (simp_all add: gauges_named_def pauseSample_def split: option.split)

lemma gauges_named_bySize_other:
  assumes "n \<noteq> ''go.mem.mallocs_by_size''" and "n \<noteq> ''go.mem.frees_by_size''"
  shows "gauges_named n (snd (bySizeLoop r bs h [])) = []"
  using assms
  by (induction bs arbitrary: h)
     (simp_all add: gauges_named_def bySizeLoop_Cons del: bySizeLoop.simps(2))

lemma gauges_named_bySize_length:
  "length (gauges_named ''go.mem.mallocs_by_size'' (snd (bySizeLoop r bs h []))) = length bs"
  "length (gauges_named ''go.mem.frees_by_size'' (snd (bySizeLoop r bs h []))) = length bs"
  by (induction bs arbitrary: h)
     (simp_all add: gauges_named_def bySizeLoop_Cons del: bySizeLoop.simps(2))

lemma gauges_named_forced:
  "gauges_named ''go.mem.num_forced_gc'' (exportMemStats_fields r h []) = []"
  "gauges_named ''go.mem.num_forced_gc'' (exportMemStats_gc r h []) =
     replicate 3 (Gauge ''go.mem.num_forced_gc'' (Float64_of_uint32 (NumForcedGC (Mem (stats r))))
       (elems h (defaultTags r)) f64_one)"
  "gauges_named ''go.mem.num_forced_gc'' (exportRuntimeStats r h []) = []"
  "gauges_named ''go.mem.num_forced_gc'' (exportRuntimeInfo r h []) = []"
  "gauges_named ''go.mem.num_forced_gc'' (exportServiceInfo r h []) = []"
  by (simp_all add: gauges_named_def exportMemStats_fields_def exportMemStats_gc_def
        exportRuntimeStats_def exportRuntimeInfo_def exportServiceInfo_def Let_def
        numeral_3_eq_3)

lemma gauges_named_by_size_others:
  "gauges_named ''go.mem.mallocs_by_size'' (exportMemStats_fields r h []) = []"
  "gauges_named ''go.mem.mallocs_by_size'' (exportMemStats_gc r h []) = []"
  "gauges_named ''go.mem.mallocs_by_size'' (exportRuntimeStats r h []) = []"
  "gauges_named ''go.mem.mallocs_by_size'' (exportRuntimeInfo r h []) = []"
  "gauges_named ''go.mem.mallocs_by_size'' (exportServiceInfo r h []) = []"
  "gauges_named ''go.mem.frees_by_size'' (exportMemStats_fields r h []) = []"
  "gauges_named ''go.mem.frees_by_size'' (exportMemStats_gc r h []) = []"
  "gauges_named ''go.mem.frees_by_size'' (exportRuntimeStats r h []) = []"
  "gauges_named ''go.mem.frees_by_size'' (exportRuntimeInfo r h []) = []"
  "gauges_named ''go.mem.frees_by_size'' (exportServiceInfo r h []) = []"
  by (simp_all add: gauges_named_def exportMemStats_fields_def exportMemStats_gc_def
        exportRuntimeStats_def exportRuntimeInfo_def exportServiceInfo_def Let_def)

lemma mem_field_names_once:
  "list_all (\<lambda>n. length (gauges_named n (exportMemStats_fields r h [])) +
                  length (gauges_named n (exportMemStats_gc r h [])) = 1 \<and>
                gauges_named n (exportRuntimeStats r h' []) = [] \<and>
                gauges_named n (exportRuntimeInfo r h' []) = [] \<and>
                gauges_named n (exportServiceInfo r h' []) = [] \<and>
                n \<noteq> ''go.mem.mallocs_by_size'' \<and> n \<noteq> ''go.mem.frees_by_size'')
     mem_field_names"
  by (simp add: mem_field_names_def gauges_named_def exportMemStats_fields_def
        exportMemStats_gc_def exportRuntimeStats_def exportRuntimeInfo_def exportServiceInfo_def
        Let_def)

lemma gauges_named_forced_bySize:
  "gauges_named ''go.mem.num_forced_gc'' (snd (bySizeLoop r bs h [])) = []"
  by (rule gauges_named_bySize_other) simp_all


text \<open>
  C10 (as amended). A tick whose snapshot has a GC count below \<open>2 ^ 32 - 1\<close> returns; it
  sends the gauge \<^verbatim>\<open>go.mem.num_forced_gc\<close> three times, with the same value and tags; it sends each name of \<open>mem_field_names\<close> once; and it sends
  \<^verbatim>\<open>go.mem.mallocs_by_size\<close> and \<^verbatim>\<open>go.mem.frees_by_size\<close> once per size class of the snapshot,
  of which there are 61.
\<close>

theorem mem_gauges_of_tick:
  assumes "NumGC (ReadMemStats smp) \<noteq> - 1"
  shows "\<exists>h' out. tick smp r h dd = Some (fillStats smp r, h', dd @ out) \<and>
           gauges_named ''go.mem.num_forced_gc'' out =
             replicate 3 (Gauge ''go.mem.num_forced_gc''
               (Float64_of_uint32 (NumForcedGC (ReadMemStats smp))) (elems h (defaultTags r)) f64_one) \<and>
           list_all (\<lambda>n. length (gauges_named n out) = 1) mem_field_names \<and>
           length (gauges_named ''go.mem.mallocs_by_size'' out) =
             length (BySize_entries (ReadMemStats smp)) \<and>
           length (gauges_named ''go.mem.frees_by_size'' out) =
             length (BySize_entries (ReadMemStats smp)) \<and>
           length (BySize_entries (ReadMemStats smp)) = 61"
proof -
  let ?r = "fillStats smp r"
  let ?bs = "BySize_entries (ReadMemStats smp)"
  let ?out = "tick_calls smp r h"
  have t: "tick smp r h dd = Some (?r, tick_heap smp r h, dd @ ?out)"
    by (rule tick_eq [OF assms])
  have f: "gauges_named ''go.mem.num_forced_gc'' ?out =
             replicate 3 (Gauge ''go.mem.num_forced_gc''
               (Float64_of_uint32 (NumForcedGC (ReadMemStats smp))) (elems h (defaultTags r)) f64_one)"
    unfolding tick_calls_def
    by (simp only: gauges_named_append gauges_named_forced gauges_named_pauseSample
          gauges_named_forced_bySize append_Nil append_Nil2 fillStats_simps)
  have o: "list_all (\<lambda>n. length (gauges_named n ?out) = 1) mem_field_names"
    unfolding tick_calls_def
    using mem_field_names_once [of ?r h "tick_heap smp r h"]
    by (rule list.pred_mono_strong)
       (simp add: gauges_named_append gauges_named_pauseSample gauges_named_bySize_other)
  have m: "length (gauges_named ''go.mem.mallocs_by_size'' ?out) = length ?bs"
    unfolding tick_calls_def
    by (simp only: gauges_named_append gauges_named_by_size_others gauges_named_pauseSample
          gauges_named_bySize_length append_Nil append_Nil2)
  have fr: "length (gauges_named ''go.mem.frees_by_size'' ?out) = length ?bs"
    unfolding tick_calls_def
    by (simp only: gauges_named_append gauges_named_by_size_others gauges_named_pauseSample
          gauges_named_bySize_length append_Nil append_Nil2)
  have e: "length ?bs = 61"
    by (rule BySize_entries_simps)
  from t f o m fr e show ?thesis
    by blast
qed

theorem mem_gauges_of_tick_witness:
  "NumGC (ReadMemStats (example_sample 3 (\<lambda>_. 5) example_classes 1000)) \<noteq> - 1 \<and>
   gauges_named ''go.mem.num_forced_gc'' (snd (snd (the
     (tick (example_sample 3 (\<lambda>_. 5) example_classes 1000) (rep (New [] example_env [] []))
        (heap (New [] example_env [] [])) [])))) =
     [Gauge ''go.mem.num_forced_gc'' (Float64_of_uint32 0) [] f64_one,
      Gauge ''go.mem.num_forced_gc'' (Float64_of_uint32 0) [] f64_one,
      Gauge ''go.mem.num_forced_gc'' (Float64_of_uint32 0) [] f64_one]"
proof -
  let ?smp = "example_sample 3 (\<lambda>_. 5) example_classes 1000"
  let ?q = "rep (New [] example_env [] [])"
  let ?h = "heap (New [] example_env [] [])"
  have n: "NumGC (ReadMemStats ?smp) \<noteq> - 1"
    by (simp add: example_sample_simps)
  from mem_gauges_of_tick [OF n, of ?q ?h "[]"]
  obtain h' out where t: "tick ?smp ?q ?h [] = Some (fillStats ?smp ?q, h', [] @ out)"
    and f: "gauges_named ''go.mem.num_forced_gc'' out =
             replicate 3 (Gauge ''go.mem.num_forced_gc''
               (Float64_of_uint32 (NumForcedGC (ReadMemStats ?smp))) (elems ?h (defaultTags ?q)) f64_one)"
    by blast
  have d: "elems ?h (defaultTags ?q) = []"
    unfolding New_no_options by (rule elems_empty_slice)
  from n t f show ?thesis
    unfolding d by (simp add: example_sample_simps numeral_3_eq_3)
qed

text \<open>
  C10 as stated fails for the size-class gauges: the name \<^verbatim>\<open>go.mem.mallocs_by_size\<close> is
  sent 61 times in one tick, once per size class.
\<close>

theorem mem_gauges_counterexample:
  "map_option (\<lambda>(r', h', out). length (gauges_named ''go.mem.mallocs_by_size'' out))
     (tick (example_sample 3 (\<lambda>_. 5) example_classes 1000) (rep (New [] example_env [] []))
        (heap (New [] example_env [] [])) []) =
   Some 61"
proof -
  let ?smp = "example_sample 3 (\<lambda>_. 5) example_classes 1000"
  let ?q = "rep (New [] example_env [] [])"
  let ?h = "heap (New [] example_env [] [])"
  have n: "NumGC (ReadMemStats ?smp) \<noteq> - 1"
    by (simp add: example_sample_simps)
  have t: "tick ?smp ?q ?h [] = Some (fillStats ?smp ?q, tick_heap ?smp ?q ?h, [] @ tick_calls ?smp ?q ?h)"
    by (rule tick_eq [OF n])
  have "length (gauges_named ''go.mem.mallocs_by_size'' (tick_calls ?smp ?q ?h)) =
          length (BySize_entries (ReadMemStats ?smp))"
    unfolding tick_calls_def
    by (simp only: gauges_named_append gauges_named_by_size_others gauges_named_pauseSample
          gauges_named_bySize_length append_Nil append_Nil2)
  also have "\<dots> = 61"
    by (rule BySize_entries_simps)
  finally show ?thesis
    unfolding t by simp
qed


subsection \<open>The worker, step by step\<close>

lemma watch_step_Cancel: "watch_step Cancel w = Inr (w\<lparr>cancelled := True\<rparr>)"
  by (simp add: watch_step_def)

lemma watch_step_CtxDone:
  "watch_step CtxDone w =
     (if returned w \<or> \<not> cancelled w then Inl NotEnabled else Inr (w\<lparr>returned := True\<rparr>))"
  by (simp add: watch_step_def)

lemma watch_step_TimerC:
  "watch_step (TimerC smp) w =
     (if returned w \<or> timer w = Drained then Inl NotEnabled
      else if NumGC (ReadMemStats smp) = - 1 then Inl Diverges
      else Inr (after_tick smp w))"
proof (cases "NumGC (ReadMemStats smp) = - 1")
  case True
  then show ?thesis
    by (simp add: watch_step_def tick_diverges)
next
  case False
  have "tick smp (rep w) (heap w) (sent w) =
          Some (fillStats smp (rep w), tick_heap smp (rep w) (heap w),
                sent w @ tick_calls smp (rep w) (heap w))"
    using False by (simp add: tick_Some_iff)
  then show ?thesis
    using False by (simp add: watch_step_def fillStats_simps after_tick_def)
qed

lemma after_tick_simps:
  "rep (after_tick smp w) = fillStats smp (rep w)"
  "heap (after_tick smp w) = tick_heap smp (rep w) (heap w)"
  "sent (after_tick smp w) = sent w @ tick_calls smp (rep w) (heap w)"
  "timer (after_tick smp w) = next_timer (period (rep w)) (time_Since_start smp)"
  "cancelled (after_tick smp w) = cancelled w"
  "returned (after_tick smp w) = returned w"
  by (simp_all add: after_tick_def)

lemma watch_step_cases:
  assumes "watch_step e w = Inr w'"
  obtains (Cancel) "e = Cancel" and "w' = w\<lparr>cancelled := True\<rparr>"
  | (Tick) smp where "e = TimerC smp" and "\<not> returned w" and "timer w \<noteq> Drained"
      and "NumGC (ReadMemStats smp) \<noteq> - 1"
      and "w' = after_tick smp w"
  | (Done) "e = CtxDone" and "\<not> returned w" and "cancelled w" and "w' = w\<lparr>returned := True\<rparr>"
proof (cases e)
  case Cancel
  with assms that(1) show ?thesis
    by (simp add: watch_step_Cancel)
next
  case (TimerC smp)
  with assms that(2) [of smp] show ?thesis
    by (simp add: watch_step_TimerC split: if_splits)
next
  case CtxDone
  with assms that(3) show ?thesis
    by (simp add: watch_step_CtxDone split: if_splits)
qed

lemma run_invariant:
  assumes "run evs w = Inr w'" and "I w"
    and "\<And>e u u'. I u \<Longrightarrow> watch_step e u = Inr u' \<Longrightarrow> I u'"
  shows "I w'"
  using assms(1,2)
proof (induction evs arbitrary: w)
  case Nil
  then show ?case by simp
next
  case (Cons e evs)
  from Cons.prems(1) obtain u where s: "watch_step e w = Inr u" and r: "run evs u = Inr w'"
    by (auto split: sum.splits)
  from assms(3) [OF Cons.prems(2) s] have "I u" .
  with r show ?case by (rule Cons.IH)
qed

lemma run_append:
  "run (xs @ ys) w = (case run xs w of Inl x \<Rightarrow> Inl x | Inr w' \<Rightarrow> run ys w')"
  by (induction xs arbitrary: w) (simp_all split: sum.splits)

lemma run_Drained:
  assumes "run evs u = Inr u'" and "timer u = Drained"
  shows "timer u' = Drained \<and> sent u' = sent u \<and> rep u' = rep u \<and>
         list_all (\<lambda>e. \<not> is_TimerC e) evs"
  using assms
proof (induction evs arbitrary: u)
  case Nil
  then show ?case by simp
next
  case (Cons e evs)
  from Cons.prems(1) obtain v where s: "watch_step e u = Inr v" and r: "run evs v = Inr u'"
    by (auto split: sum.splits)
  from s Cons.prems(2) have v: "timer v = Drained \<and> sent v = sent u \<and> rep v = rep u \<and> \<not> is_TimerC e"
    by (cases rule: watch_step_cases) (simp_all add: after_tick_simps)
  with Cons.IH [OF r] show ?case
    by simp
qed

lemma run_returned:
  assumes "run evs u = Inr u'" and "returned u"
  shows "returned u' \<and> sent u' = sent u \<and> rep u' = rep u \<and> list_all (\<lambda>e. e = Cancel) evs"
  using assms
proof (induction evs arbitrary: u)
  case Nil
  then show ?case by simp
next
  case (Cons e evs)
  from Cons.prems(1) obtain v where s: "watch_step e u = Inr v" and r: "run evs v = Inr u'"
    by (auto split: sum.splits)
  from s Cons.prems(2) have v: "returned v \<and> sent v = sent u \<and> rep v = rep u \<and> e = Cancel"
    by (cases rule: watch_step_cases) (simp_all add: after_tick_simps)
  with Cons.IH [OF r] show ?case
    by simp
qed

lemma run_Cancels:
  assumes "list_all (\<lambda>e. e = Cancel) evs" and "run evs u = Inr u'"
  shows "sent u' = sent u \<and> rep u' = rep u \<and> returned u' = returned u \<and> timer u' = timer u"
  using assms
proof (induction evs arbitrary: u)
  case Nil
  then show ?case by simp
next
  case (Cons e evs)
  then have e: "e = Cancel" and rest: "list_all (\<lambda>e. e = Cancel) evs"
    by simp_all
  from Cons.prems(2) e have r: "run evs (u\<lparr>cancelled := True\<rparr>) = Inr u'"
    by (simp add: watch_step_Cancel)
  from Cons.IH [OF rest r] show ?case
    by simp
qed


subsection \<open>The static fields of the snapshot\<close>

text \<open>
  C8. The sampling pass \<^verbatim>\<open>fillStats\<close> replaces the fields \<^verbatim>\<open>Mem\<close> and \<^verbatim>\<open>Runtime\<close> of the
  snapshot and nothing else, and a tick that returns leaves the reporter that \<^verbatim>\<open>fillStats\<close>
  made. So after any number of events of the worker, the toolchain info and the service
  info that \<^verbatim>\<open>GetStats\<close> returns are the ones \<^verbatim>\<open>New\<close> stored: the architecture, the OS and
  the version of the environment, and \<^verbatim>\<open>svcinfo.GetInfo()\<close>.
\<close>

theorem static_fields_unchanged:
  "fillStats smp r =
     r\<lparr>stats := (stats r)\<lparr>Mem := ReadMemStats smp,
          Runtime := \<lparr>MaxProcs = runtime_GOMAXPROCS smp, NumCPU = runtime_NumCPU smp,
                      NumCgoCall = runtime_NumCgoCall smp,
                      NumGoroutine = runtime_NumGoroutine smp\<rparr>\<rparr>\<rparr> \<and>
   (tick smp r h dd = Some (r', h', dd') \<longrightarrow> r' = fillStats smp r) \<and>
   (run evs (New h0 env dd0 opts) = Inr w \<longrightarrow>
      GoInfo (GetStats (rep w)) = \<lparr>Arch = GOARCH env, OS = GOOS env, Version = runtime_Version env\<rparr> \<and>
      ServiceInfo (GetStats (rep w)) = GetInfo (svcinfo env) \<and>
      GoInfo (GetStats (rep w)) = GoInfo (GetStats (rep (New h0 env dd0 opts))) \<and>
      ServiceInfo (GetStats (rep w)) = ServiceInfo (GetStats (rep (New h0 env dd0 opts))))"
proof (intro conjI impI)
  show "fillStats smp r =
     r\<lparr>stats := (stats r)\<lparr>Mem := ReadMemStats smp,
          Runtime := \<lparr>MaxProcs = runtime_GOMAXPROCS smp, NumCPU = runtime_NumCPU smp,
                      NumCgoCall = runtime_NumCgoCall smp,
                      NumGoroutine = runtime_NumGoroutine smp\<rparr>\<rparr>\<rparr>"
    by (simp add: fillStats_def Let_def)
next
  assume "tick smp r h dd = Some (r', h', dd')"
  then show "r' = fillStats smp r"
    by (simp add: tick_Some_iff)
next
  assume r: "run evs (New h0 env dd0 opts) = Inr w"
  let ?I = "\<lambda>u. GoInfo (stats (rep u)) = GoInfo (stats (rep (New h0 env dd0 opts))) \<and>
                ServiceInfo (stats (rep u)) = ServiceInfo (stats (rep (New h0 env dd0 opts)))"
  have step: "?I u'" if "?I u" and "watch_step e u = Inr u'" for e u u'
    using that(2,1) by (cases rule: watch_step_cases) (simp_all add: fillStats_simps after_tick_simps)
  have inv: "?I w"
    using r _ step by (rule run_invariant [where I = ?I]) simp
  from inv show "GoInfo (GetStats (rep w)) =
      \<lparr>Arch = GOARCH env, OS = GOOS env, Version = runtime_Version env\<rparr>"
    by (simp add: GetStats_def New_static)
  from inv show "ServiceInfo (GetStats (rep w)) = GetInfo (svcinfo env)"
    by (simp add: GetStats_def New_static)
  from inv show "GoInfo (GetStats (rep w)) = GoInfo (GetStats (rep (New h0 env dd0 opts)))"
    by (simp add: GetStats_def)
  from inv show "ServiceInfo (GetStats (rep w)) = ServiceInfo (GetStats (rep (New h0 env dd0 opts)))"
    by (simp add: GetStats_def)
qed

lemma next_timer_Armed:
  assumes "0 <s p - processTime"
  shows "next_timer p processTime = Armed (p - processTime)"
  using assms by (simp add: next_timer_def)

lemma next_timer_example:
  "next_timer DefaultPeriod 1000 = Armed 4999999000"
  "next_timer DefaultPeriod (6 * Second) = Drained"
  by (simp_all add: next_timer_def DefaultPeriod_def Second_def word_sless_alt)

lemma run_two_ticks_example:
  "run [TimerC (example_sample 3 p bs 1000), TimerC (example_sample 5 p' bs' 1000)]
     (New [] example_env [] []) =
   Inr (after_tick (example_sample 5 p' bs' 1000)
          (after_tick (example_sample 3 p bs 1000) (New [] example_env [] [])))"
  by (simp add: watch_step_TimerC New_worker example_sample_simps fillStats_simps
        New_no_options next_timer_example after_tick_simps)

theorem static_fields_unchanged_witness:
  "case run [TimerC (example_sample 3 (\<lambda>_. 5) example_classes 1000),
             TimerC (example_sample 5 (\<lambda>_. 7) example_classes 1000)] (New [] example_env [] []) of
     Inl _ \<Rightarrow> False
   | Inr w \<Rightarrow>
       GoInfo (GetStats (rep w)) = \<lparr>Arch = ''amd64'', OS = ''linux'', Version = ''go1.11''\<rparr> \<and>
       ServiceInfo (GetStats (rep w)) = \<lparr>BuildDate = [], CommitSHA = ''abc123'', Version = ''1.2''\<rparr> \<and>
       NumGC (Mem (GetStats (rep w))) = 5"
proof -
  let ?s1 = "example_sample 3 (\<lambda>_. 5) example_classes 1000"
  let ?s2 = "example_sample 5 (\<lambda>_. 7) example_classes 1000"
  let ?w = "after_tick ?s2 (after_tick ?s1 (New [] example_env [] []))"
  have r: "run [TimerC ?s1, TimerC ?s2] (New [] example_env [] []) = Inr ?w"
    by (rule run_two_ticks_example)
  from static_fields_unchanged [where evs = "[TimerC ?s1, TimerC ?s2]" and h0 = "[]"
      and env = example_env and ?dd0.0 = "[]" and opts = "[]" and w = ?w] r
  have "GoInfo (GetStats (rep ?w)) =
          \<lparr>Arch = GOARCH example_env, OS = GOOS example_env, Version = runtime_Version example_env\<rparr>"
    and "ServiceInfo (GetStats (rep ?w)) = GetInfo (svcinfo example_env)"
    by blast+
  then have "GoInfo (GetStats (rep ?w)) = \<lparr>Arch = ''amd64'', OS = ''linux'', Version = ''go1.11''\<rparr>"
    and "ServiceInfo (GetStats (rep ?w)) = \<lparr>BuildDate = [], CommitSHA = ''abc123'', Version = ''1.2''\<rparr>"
    by (simp_all add: example_env_def GetInfo_def)
  moreover have "NumGC (Mem (GetStats (rep ?w))) = 5"
    by (simp add: GetStats_def fillStats_simps example_sample_simps after_tick_simps)
  ultimately show ?thesis
    unfolding r by simp
qed

subsection \<open>Default tags\<close>












subsection \<open>The wait after a pass\<close>

text \<open>
  C2 (what the code does where the claim fails). When a pass takes at least the period,
  so that \<^verbatim>\<open>r.period-processTime > 0\<close> is false, \<^verbatim>\<open>watch\<close> creates no timer: the variable
  keeps the timer whose value the \<^verbatim>\<open>select\<close> has received. So the next cycle does not
  start at once: no later \<^verbatim>\<open>select\<close> can take the timer branch, and the log never grows
  again, whatever happens next. The other variant of \<^verbatim>\<open>watch\<close>, which sleeps, goes on at
  once in that case (it sleeps 0).
\<close>

theorem watch_stops_after_slow_pass:
  assumes "watch_step (TimerC smp) w = Inr w'"
    and "\<not> 0 <s period (rep w) - time_Since_start smp"
    and "run evs w' = Inr w''"
  shows "timer w' = Drained \<and> list_all (\<lambda>e. \<not> is_TimerC e) evs \<and> sent w'' = sent w' \<and>
         watch_step (TimerC smp') w'' = Inl NotEnabled \<and>
         watch_sleep (period (rep w)) (time_Since_start smp) = 0"
proof -
  from assms(1) have d: "timer w' = Drained"
    using assms(2) by (cases rule: watch_step_cases) (auto simp: next_timer_def after_tick_simps)
  from run_Drained [OF assms(3) d]
  have "timer w'' = Drained" and "sent w'' = sent w'" and "list_all (\<lambda>e. \<not> is_TimerC e) evs"
    by simp_all
  moreover from \<open>timer w'' = Drained\<close> have "watch_step (TimerC smp') w'' = Inl NotEnabled"
    by (simp add: watch_step_TimerC)
  moreover have "watch_sleep (period (rep w)) (time_Since_start smp) = 0"
    using assms(2) by (simp add: watch_sleep_def)
  ultimately show ?thesis
    using d by simp
qed

theorem watch_stops_after_slow_pass_witness:
  "\<not> 0 <s period (rep (New [] example_env [] [])) - 6 * Second \<and>
   (case run [TimerC (example_sample 3 (\<lambda>_. 5) example_classes (6 * Second))] (New [] example_env [] []) of
      Inl _ \<Rightarrow> False
    | Inr w \<Rightarrow>
        timer w = Drained \<and>
        watch_step (TimerC (example_sample 4 (\<lambda>_. 5) example_classes 1000)) w = Inl NotEnabled)"
proof -
  let ?s = "example_sample 3 (\<lambda>_. 5) example_classes (6 * Second)"
  let ?n = "New [] example_env [] []"
  let ?w = "after_tick ?s ?n"
  have p: "\<not> 0 <s period (rep ?n) - 6 * Second"
    by (simp add: New_no_options DefaultPeriod_def Second_def word_sless_alt)
  have s: "watch_step (TimerC ?s) ?n = Inr ?w"
    by (simp add: watch_step_TimerC New_worker example_sample_simps)
  have p': "\<not> 0 <s period (rep ?n) - time_Since_start ?s"
    using p by (simp add: example_sample_simps)
  have r: "run [] ?w = Inr ?w"
    by simp
  from watch_stops_after_slow_pass [OF s p' r, of "example_sample 4 (\<lambda>_. 5) example_classes 1000"]
  have "timer ?w = Drained"
    and "watch_step (TimerC (example_sample 4 (\<lambda>_. 5) example_classes 1000)) ?w = Inl NotEnabled"
    by blast+
  moreover have e: "run [TimerC ?s] ?n = Inr ?w"
    using s by simp
  ultimately show ?thesis
    unfolding e using p by (simp only: sum.case simp_thms)
qed


subsection \<open>Cancellation\<close>

text \<open>
  C3 (as amended). Once a \<^verbatim>\<open>select\<close> of the worker receives from \<^verbatim>\<open>r.ctx.Done()\<close>, which
  needs \<^verbatim>\<open>Cancel()\<close> to have been called, the worker has returned: no \<^verbatim>\<open>select\<close> happens
  after it (only calls of \<^verbatim>\<open>Cancel()\<close> can follow) and nothing more is sent. When this is
  the first thing the worker's \<^verbatim>\<open>select\<close> receives, the log holds the startup counter and
  nothing else, for ever.
\<close>

theorem worker_stops_once_done_received:
  "(watch_step CtxDone w = Inr w' \<and> run evs w' = Inr w'' \<longrightarrow>
      cancelled w \<and> returned w'' \<and> sent w'' = sent w \<and> list_all (\<lambda>e. e = Cancel) evs) \<and>
   (list_all (\<lambda>e. e = Cancel) evs1 \<and> run (evs1 @ CtxDone # evs2) (New h0 env dd0 opts) = Inr u \<longrightarrow>
      returned u \<and> sent u = dd0 @ [Count ''startup'' 1 [] f64_one] \<and>
      list_all (\<lambda>e. e = Cancel) evs2)"
proof (rule conjI; rule impI)
  assume a: "watch_step CtxDone w = Inr w' \<and> run evs w' = Inr w''"
  then have s: "watch_step CtxDone w = Inr w'" and r: "run evs w' = Inr w''"
    by simp_all
  from s have w': "cancelled w \<and> returned w' \<and> sent w' = sent w"
    by (cases rule: watch_step_cases) (simp_all add: after_tick_simps)
  then have "returned w'" by simp
  from run_returned [OF r this] w'
  show "cancelled w \<and> returned w'' \<and> sent w'' = sent w \<and> list_all (\<lambda>e. e = Cancel) evs"
    by simp
next
  assume a: "list_all (\<lambda>e. e = Cancel) evs1 \<and>
             run (evs1 @ CtxDone # evs2) (New h0 env dd0 opts) = Inr u"
  then have c: "list_all (\<lambda>e. e = Cancel) evs1"
    and r: "run (evs1 @ CtxDone # evs2) (New h0 env dd0 opts) = Inr u"
    by simp_all
  from r obtain v where r1: "run evs1 (New h0 env dd0 opts) = Inr v"
    and r2: "run (CtxDone # evs2) v = Inr u"
    by (auto simp: run_append split: sum.splits)
  from r2 obtain v' where s: "watch_step CtxDone v = Inr v'" and r3: "run evs2 v' = Inr u"
    by (auto split: sum.splits)
  from run_Cancels [OF c r1] have v: "sent v = sent (New h0 env dd0 opts)"
    by simp
  from s have v': "returned v' \<and> sent v' = sent v"
    by (cases rule: watch_step_cases) (simp_all add: after_tick_simps)
  then have "returned v'" by simp
  from run_returned [OF r3 this] v v'
  show "returned u \<and> sent u = dd0 @ [Count ''startup'' 1 [] f64_one] \<and>
        list_all (\<lambda>e. e = Cancel) evs2"
    by (simp add: New_worker)
qed

theorem worker_stops_once_done_received_witness:
  "watch_step CtxDone ((New [] example_env [] [])\<lparr>cancelled := True\<rparr>) =
     Inr ((New [] example_env [] [])\<lparr>cancelled := True, returned := True\<rparr>) \<and>
   (case run [Cancel, CtxDone, Cancel] (New [] example_env [] []) of
      Inl _ \<Rightarrow> False
    | Inr u \<Rightarrow> returned u \<and> sent u = [Count ''startup'' 1 [] f64_one])"
proof -
  let ?n = "New [] example_env [] []"
  let ?u = "?n\<lparr>cancelled := True, returned := True, cancelled := True\<rparr>"
  have s: "watch_step CtxDone (?n\<lparr>cancelled := True\<rparr>) = Inr (?n\<lparr>cancelled := True, returned := True\<rparr>)"
    by (simp add: watch_step_CtxDone New_worker)
  have r: "run ([Cancel] @ CtxDone # [Cancel]) ?n = Inr ?u"
    by (simp add: watch_step_CtxDone watch_step_Cancel New_worker)
  have c: "list_all (\<lambda>e. e = Cancel) [Cancel]"
    by simp
  from worker_stops_once_done_received
    [of "?n\<lparr>cancelled := True\<rparr>" "?n\<lparr>cancelled := True, returned := True\<rparr>" "[]"
        "?n\<lparr>cancelled := True, returned := True\<rparr>" "[Cancel]" "[Cancel]" "[]" example_env "[]" "[]" ?u]
    c r
  have "returned ?u \<and> sent ?u = [] @ [Count ''startup'' 1 [] f64_one]"
    by blast
  then show ?thesis
    using s r by simp
qed

lemma length_exports:
  "length (exportMemStats_fields r h []) = 24"
  "length (exportMemStats_gc r h []) = 5"
  "length (exportRuntimeStats r h []) = 4"
  "length (exportRuntimeInfo r h []) = 1"
  by (simp_all add: exportMemStats_fields_def exportMemStats_gc_def exportRuntimeStats_def
        exportRuntimeInfo_def Let_def)

text \<open>
  C3 as stated fails at a wait where the timer has fired too: \<^verbatim>\<open>watch\<close> starts with
  \<^verbatim>\<open>time.NewTimer(0)\<close>, so after \<^verbatim>\<open>New\<close> and \<^verbatim>\<open>Cancel()\<close> the first \<^verbatim>\<open>select\<close> can take
  the timer branch, and a whole pass (158 calls) is sent after the cancellation.
\<close>

theorem worker_stops_counterexample:
  "case run [Cancel, TimerC (example_sample 0 (\<lambda>_. 0) example_classes 1000)] (New [] example_env [] []) of
     Inl _ \<Rightarrow> False
   | Inr w \<Rightarrow> cancelled w \<and> \<not> returned w \<and> length (sent w) = 159"
proof -
  let ?s = "example_sample 0 (\<lambda>_. 0) example_classes 1000"
  let ?n = "New [] example_env [] []"
  let ?w = "after_tick ?s (?n\<lparr>cancelled := True\<rparr>)"
  have r: "run [Cancel, TimerC ?s] ?n = Inr ?w"
    by (simp add: watch_step_Cancel watch_step_TimerC New_worker example_sample_simps)
  have i: "length (exportServiceInfo (fillStats ?s (rep ?n)) (tick_heap ?s (rep ?n) (heap ?n)) []) = 1"
    by (simp add: exportServiceInfo_def fillStats_simps New_example_tags)
  have p: "length (concat (map (pauseSample (fillStats ?s (rep ?n)) (heap ?n)) [0 ..< Suc 0])) = 1"
    by (simp add: pauseSample_def fillStats_simps example_sample_simps ParseDuration_ns_def)
  have "length (tick_calls ?s (rep ?n) (heap ?n)) = 158"
    unfolding tick_calls_def
    using i p
    by (simp add: length_exports length_bySizeLoop BySize_entries_simps example_sample_simps
          New_no_options MemStats_zero_def)
  then have "length (sent ?w) = 159"
    by (simp add: New_worker after_tick_simps)
  then show ?thesis
    unfolding r by (simp add: New_worker after_tick_simps)
qed


subsection \<open>GetStats returns one snapshot\<close>

text \<open>Run alone, the steps are the sequential functions.\<close>

lemma fillStats_steps_alone:
  assumes "fill st = Fill_idle" and "rlocked st = []" and "copied st = []"
    and "snapshot st = stats r"
  shows "map_option snapshot (conc_run (fillStats_steps smp) st) = Some (stats (fillStats smp r))"
  using assms by (simp add: fillStats_steps_def conc_step_def fillStats_def Let_def)

lemma GetStats_steps_alone:
  "map_option results (conc_run (GetStats_steps c) (conc_init r)) = Some [GetStats r]"
  by (simp add: GetStats_steps_def conc_step_def conc_init_def GetStats_def)

text \<open>The mutex keeps a caller out while the worker is between its two writes.\<close>

lemma RLock_blocked_while_writing:
  assumes "fill st \<noteq> Fill_idle"
  shows "conc_step (G_RLock c) st = None"
  using assms by (simp add: conc_step_def)

lemma Lock_blocked_while_reading:
  assumes "rlocked st \<noteq> [] \<or> copied st \<noteq> []"
  shows "conc_step W_Lock st = None"
  using assms by (auto simp: conc_step_def)

lemma conc_run_snoc:
  "conc_run (as @ [a]) st = (case conc_run as st of None \<Rightarrow> None | Some u \<Rightarrow> conc_step a u)"
  by (induction as arbitrary: st) (simp_all split: option.splits)

lemma mem_writes_snoc:
  "mem_writes (as @ [a]) =
     mem_writes as @ (case a of W_ReadMemStats m \<Rightarrow> [m] | _ \<Rightarrow> [])"
  by (induction as rule: mem_writes.induct) (simp_all split: action.splits)

lemma runtime_writes_snoc:
  "runtime_writes (as @ [a]) =
     runtime_writes as @ (case a of W_SetRuntime rt \<Rightarrow> [rt] | _ \<Rightarrow> [])"
  by (induction as rule: runtime_writes.induct) (simp_all split: action.splits)

lemma zip_snoc_longer:
  assumes "length ys \<le> length xs"
  shows "zip (xs @ [x]) ys = zip xs ys"
  using assms by (simp add: zip_append1)

lemma zip_snoc_both:
  assumes "length xs = length ys"
  shows "zip (xs @ [x]) (ys @ [y]) = zip xs ys @ [(x, y)]"
  using assms by simp

lemma conc_inv_init: "conc_inv (stats r) [] (conc_init r)"
  by (simp add: conc_inv_def conc_init_def snapshot_of_def passes_def)

lemma snapshot_of_eq:
  assumes "GoInfo t = GoInfo s" and "ServiceInfo t = ServiceInfo s"
  shows "t\<lparr>Runtime := rt\<rparr> = snapshot_of s (Mem t, rt)"
  using assms by (cases t, cases s) (simp add: snapshot_of_def)

lemma snapshot_of_static:
  "GoInfo (snapshot_of s p) = GoInfo s"
  "ServiceInfo (snapshot_of s p) = ServiceInfo s"
  by (simp_all add: snapshot_of_def)

lemma conc_inv_step:
  assumes "conc_inv s as st" and "conc_step a st = Some st'"
  shows "conc_inv s (as @ [a]) st'"
proof (cases a)
  case W_Lock
  with assms(2) have "fill st = Fill_idle \<and> rlocked st = [] \<and> copied st = []"
    and st': "st' = st\<lparr>fill := Fill_locked\<rparr>"
    by (simp_all add: conc_step_def split: if_splits)
  with assms(1) show ?thesis
    unfolding st' W_Lock
    by (simp add: conc_inv_def passes_def mem_writes_snoc runtime_writes_snoc)
next
  case (W_ReadMemStats m)
  with assms(2) have "fill st = Fill_locked"
    and st': "st' = st\<lparr>snapshot := (snapshot st)\<lparr>Mem := m\<rparr>, fill := Fill_mem_written\<rparr>"
    by (simp_all add: conc_step_def split: if_splits)
  with assms(1) show ?thesis
    unfolding st' W_ReadMemStats
    by (simp add: conc_inv_def passes_def mem_writes_snoc runtime_writes_snoc zip_snoc_longer)
next
  case (W_SetRuntime rt)
  with assms(2) have f: "fill st = Fill_mem_written"
    and st': "st' = st\<lparr>snapshot := (snapshot st)\<lparr>Runtime := rt\<rparr>, fill := Fill_runtime_written\<rparr>"
    by (simp_all add: conc_step_def split: if_splits)
  from assms(1) have g: "GoInfo (snapshot st) = GoInfo s" "ServiceInfo (snapshot st) = ServiceInfo s"
    by (simp_all add: conc_inv_def)
  have e: "(snapshot st)\<lparr>Runtime := rt\<rparr> = snapshot_of s (Mem (snapshot st), rt)"
    using g by (rule snapshot_of_eq)
  from assms(1) f obtain ms where ms: "mem_writes as = ms @ [Mem (snapshot st)]"
    and len: "length ms = length (runtime_writes as)"
    by (auto simp: conc_inv_def)
  have p: "passes as = zip ms (runtime_writes as)"
    unfolding passes_def ms using len by (simp add: zip_snoc_longer)
  have p': "passes (as @ [a]) = passes as @ [(Mem (snapshot st), rt)]"
    unfolding p unfolding passes_def W_SetRuntime mem_writes_snoc runtime_writes_snoc ms
    using len by simp
  from assms(1) f have "rlocked st = []" and "copied st = []"
    and "set (results st) \<subseteq> snapshot_of s ` set ((Mem s, Runtime s) # passes as)"
    by (simp_all add: conc_inv_def)
  then show ?thesis
    unfolding st' conc_inv_def p'
    by (auto simp: e snapshot_of_static ms len W_SetRuntime mem_writes_snoc runtime_writes_snoc)
next
  case W_Unlock
  with assms(2) have "fill st = Fill_runtime_written" and st': "st' = st\<lparr>fill := Fill_idle\<rparr>"
    by (simp_all add: conc_step_def split: if_splits)
  with assms(1) show ?thesis
    unfolding st' W_Unlock
    by (simp add: conc_inv_def passes_def mem_writes_snoc runtime_writes_snoc)
next
  case (G_RLock c)
  with assms(2) have "fill st = Fill_idle" and st': "st' = st\<lparr>rlocked := c # rlocked st\<rparr>"
    by (simp_all add: conc_step_def split: if_splits)
  with assms(1) show ?thesis
    unfolding st' G_RLock
    by (simp add: conc_inv_def passes_def mem_writes_snoc runtime_writes_snoc)
next
  case (G_Copy c)
  with assms(2) have c: "c \<in> set (rlocked st)"
    and st': "st' = st\<lparr>rlocked := removeAll c (rlocked st), copied := (c, snapshot st) # copied st\<rparr>"
    by (simp_all add: conc_step_def split: if_splits)
  from c have "rlocked st \<noteq> []"
    by auto
  with assms(1) have "fill st = Fill_idle"
    by (auto simp: conc_inv_def)
  with assms(1) show ?thesis
    unfolding st' G_Copy
    by (simp add: conc_inv_def passes_def mem_writes_snoc runtime_writes_snoc)
next
  case (G_RUnlock c)
  with assms(2) obtain v where m: "map_of (copied st) c = Some v"
    and st': "st' = st\<lparr>copied := filter (\<lambda>p. fst p \<noteq> c) (copied st), results := results st @ [v]\<rparr>"
    by (auto simp: conc_step_def split: option.splits)
  let ?S = "snapshot_of s ` set ((Mem s, Runtime s) # passes as)"
  from m have "(c, v) \<in> set (copied st)"
    by (rule map_of_SomeD)
  then have v: "v \<in> snd ` set (copied st)" and ne: "copied st \<noteq> []"
    by force+
  from assms(1) ne have i: "fill st = Fill_idle"
    by (auto simp: conc_inv_def)
  from assms(1) have sub: "snd ` set (copied st) \<subseteq> ?S"
    by (simp add: conc_inv_def)
  have "snd ` set (filter (\<lambda>p. fst p \<noteq> c) (copied st)) \<subseteq> snd ` set (copied st)"
    by auto
  with sub have sub': "snd ` set (filter (\<lambda>p. fst p \<noteq> c) (copied st)) \<subseteq> ?S"
    by (rule subset_trans [rotated])
  from sub v have "v \<in> ?S"
    by (rule subsetD)
  with assms(1) i sub' show ?thesis
    unfolding st' G_RUnlock
    by (simp add: conc_inv_def passes_def mem_writes_snoc runtime_writes_snoc)
qed

lemma conc_inv_run:
  assumes "conc_run as (conc_init r) = Some st"
  shows "conc_inv (stats r) as st"
  using assms
proof (induction as arbitrary: st rule: rev_induct)
  case Nil
  then have "st = conc_init r"
    by simp
  then show ?case
    by (simp only: conc_inv_init)
next
  case (snoc a as)
  from snoc.prems obtain u where r: "conc_run as (conc_init r) = Some u"
    and s: "conc_step a u = Some st"
    by (auto simp: conc_run_snoc split: option.splits)
  from snoc.IH [OF r] s show ?case
    by (rule conc_inv_step)
qed

lemma results_grow_step:
  assumes "conc_step a st = Some st'"
  shows "prefix (results st) (results st')"
  using assms by (cases a) (auto simp: conc_step_def split: if_splits option.splits)

lemma results_grow_run:
  assumes "conc_run as st = Some st'"
  shows "prefix (results st) (results st')"
  using assms
proof (induction as arbitrary: st)
  case Nil
  then show ?case by simp
next
  case (Cons a as)
  from Cons.prems obtain u where s: "conc_step a st = Some u" and r: "conc_run as u = Some st'"
    by (auto split: option.splits)
  from results_grow_step [OF s] Cons.IH [OF r] show ?case
    by (rule prefix_order.trans)
qed

text \<open>
  C4. Whatever the interleaving of the sampling passes of the worker with the calls of
  \<^verbatim>\<open>GetStats\<close>, every value that \<^verbatim>\<open>GetStats\<close> has returned is the snapshot of the
  construction or the snapshot of one pass: its memory statistics and its runtime counters
  are those written by the same pass \<open>n\<close>, and its static fields are those of the
  construction. A value once returned is the caller's: later steps leave it as it is.
\<close>

theorem GetStats_returns_one_snapshot:
  assumes "conc_run as (conc_init r) = Some st"
  shows "(\<forall>v \<in> set (results st).
            v = stats r \<or>
            (\<exists>n < length (passes as).
               v = (stats r)\<lparr>Mem := fst (passes as ! n), Runtime := snd (passes as ! n)\<rparr>)) \<and>
         (\<forall>bs st'. conc_run bs st = Some st' \<longrightarrow> prefix (results st) (results st'))"
proof
  from conc_inv_run [OF assms]
  have sub: "set (results st) \<subseteq>
               snapshot_of (stats r) ` set ((Mem (stats r), Runtime (stats r)) # passes as)"
    by (simp add: conc_inv_def)
  show "\<forall>v \<in> set (results st).
            v = stats r \<or>
            (\<exists>n < length (passes as).
               v = (stats r)\<lparr>Mem := fst (passes as ! n), Runtime := snd (passes as ! n)\<rparr>)"
  proof
    fix v assume "v \<in> set (results st)"
    with sub have "v \<in> snapshot_of (stats r) ` set ((Mem (stats r), Runtime (stats r)) # passes as)"
      by (rule subsetD)
    then consider "v = snapshot_of (stats r) (Mem (stats r), Runtime (stats r))"
      | p where "p \<in> set (passes as)" and "v = snapshot_of (stats r) p"
      by auto
    then show "v = stats r \<or>
            (\<exists>n < length (passes as).
               v = (stats r)\<lparr>Mem := fst (passes as ! n), Runtime := snd (passes as ! n)\<rparr>)"
    proof cases
      case 1
      then show ?thesis
        by (simp add: snapshot_of_def)
    next
      case 2
      from 2(1) obtain n where "n < length (passes as)" and "passes as ! n = p"
        by (auto simp: in_set_conv_nth)
      with 2(2) show ?thesis
        by (auto simp: snapshot_of_def)
    qed
  qed
  show "\<forall>bs st'. conc_run bs st = Some st' \<longrightarrow> prefix (results st) (results st')"
    using results_grow_run by blast
qed


theorem GetStats_returns_one_snapshot_witness:
  "case conc_run example_schedule (conc_init (rep (New [] example_env [] []))) of
     None \<Rightarrow> False
   | Some st \<Rightarrow>
       fill st = Fill_mem_written \<and>
       NumGC (Mem (snapshot st)) = 5 \<and> NumCPU (Runtime (snapshot st)) = 4 \<and>
       length (results st) = 2 \<and>
       list_all (\<lambda>v. (NumGC (Mem v) = 0 \<and> NumCPU (Runtime v) = 0) \<or>
                     (NumGC (Mem v) = 3 \<and> NumCPU (Runtime v) = 4)) (results st)"
proof -
  let ?r = "rep (New [] example_env [] [])"
  let ?run = "conc_run example_schedule (conc_init ?r)"
  have f: "map_option fill ?run = Some Fill_mem_written"
    and n: "map_option (\<lambda>st. NumGC (Mem (snapshot st))) ?run = Some 5"
    and c: "map_option (\<lambda>st. NumCPU (Runtime (snapshot st))) ?run = Some 4"
    and l: "map_option (\<lambda>st. length (results st)) ?run = Some 2"
    by (simp_all add: example_schedule_def fillStats_steps_def conc_step_def conc_init_def
          example_sample_def)
  from f obtain st where r: "?run = Some st"
    by auto
  have p: "passes example_schedule =
             [(ReadMemStats (example_sample 3 (\<lambda>_. 5) example_classes 1000),
               \<lparr>MaxProcs = 4, NumCPU = 4, NumCgoCall = 0, NumGoroutine = 7\<rparr>)]"
    by (simp add: passes_def example_schedule_def fillStats_steps_def example_sample_def)
  from GetStats_returns_one_snapshot [OF r]
  have a: "\<forall>v \<in> set (results st).
            v = stats ?r \<or>
            (\<exists>n < length (passes example_schedule).
               v = (stats ?r)\<lparr>Mem := fst (passes example_schedule ! n),
                                Runtime := snd (passes example_schedule ! n)\<rparr>)"
    by blast
  have z: "NumGC (Mem (stats ?r)) = 0 \<and> NumCPU (Runtime (stats ?r)) = 0"
    by (simp add: New_def buildTags_def Let_def split_beta MemStats_zero_def RuntimeStats_zero_def)
  have "list_all (\<lambda>v. (NumGC (Mem v) = 0 \<and> NumCPU (Runtime v) = 0) \<or>
                     (NumGC (Mem v) = 3 \<and> NumCPU (Runtime v) = 4)) (results st)"
    unfolding list_all_iff
  proof
    fix v assume "v \<in> set (results st)"
    with a have "v = stats ?r \<or>
        v = (stats ?r)\<lparr>Mem := ReadMemStats (example_sample 3 (\<lambda>_. 5) example_classes 1000),
                         Runtime := \<lparr>MaxProcs = 4, NumCPU = 4, NumCgoCall = 0, NumGoroutine = 7\<rparr>\<rparr>"
      unfolding p by auto
    then show "(NumGC (Mem v) = 0 \<and> NumCPU (Runtime v) = 0) \<or>
               (NumGC (Mem v) = 3 \<and> NumCPU (Runtime v) = 4)"
      using z by (auto simp: example_sample_simps)
  qed
  with f n c l show ?thesis
    unfolding r by simp
qed

end
